theory Spec2Isabelle
  imports Main "HOL-Library.Word"
begin

section \<open>Byte strings and their successor (\<open>bytes_increment\<close>)\<close>

text \<open>
  A Python byte string is a list of 8-bit words. Python compares byte strings
  lexicographically, a proper prefix sorting before its extensions.
\<close>

type_synonym bytes = "8 word list"

fun bytes_lt :: "bytes \<Rightarrow> bytes \<Rightarrow> bool" where
  "bytes_lt [] [] = False"
| "bytes_lt [] (y # ys) = True"
| "bytes_lt (x # xs) [] = False"
| "bytes_lt (x # xs) (y # ys) = (x < y \<or> (x = y \<and> bytes_lt xs ys))"

text \<open>
  \<^verbatim>\<open>
  def bytes_increment(b):
      b = bytearray(b)
      for i in range(len(b) - 1, -1, -1):
          if b[i] != 0xff:
              b[i] += 1
              return bytes(b[:i+1])
      return None
  \<close>
  The loop runs over the indices \<open>len(b) - 1, ..., 0\<close>; the first index whose byte
  differs from \<open>0xff\<close> ends it. The byte incremented is below \<open>0xff\<close>, so the
  addition on \<open>8 word\<close> does not wrap where the \<open>bytearray\<close> would refuse the value.
  Python's \<open>None\<close>, the sentinel, is the option \<open>None\<close>.
\<close>

fun bytes_increment_loop :: "bytes \<Rightarrow> nat list \<Rightarrow> bytes option" where
  "bytes_increment_loop b [] = None"
| "bytes_increment_loop b (i # is) =
     (if b ! i \<noteq> 0xff then Some (take (i + 1) (b[i := b ! i + 1]))
      else bytes_increment_loop b is)"

definition bytes_increment :: "bytes \<Rightarrow> bytes option" where
  "bytes_increment b = bytes_increment_loop b (rev [0..<length b])"

section \<open>Operations, effects and the journal of a run\<close>

text \<open>
  The wrapped operation \<open>func\<close> and the hook \<open>callback\<close> are arbitrary Python callables.
  They are modelled as functions of the call arguments \<open>'a\<close> (the pair \<open>*args, **kwargs\<close>)
  and of a store \<open>'s\<close> that holds every piece of state they can read or change; each returns
  the new store together with either the raised error (\<open>Inl\<close>) or the returned value
  (\<open>Inr\<close>). The clause \<open>except expected_exception as e\<close> is a predicate on errors: it
  holds for the errors that are instances of one of the expected classes.

  The wrappers thread a journal through the run next to the store. The journal records, in
  order, each invocation of \<open>func\<close> and of \<open>callback\<close> with the arguments passed and
  the error raised, if any, and each record written to the logger. \<open>LogError\<close> carries the
  list \<open>prev_exceptions\<close>; \<open>LogInfo\<close> carries the error caught and \<open>retry_count - i\<close>.
  Writing to the logger does not raise. \<open>functools.wraps\<close> copies the name and the
  documentation of \<open>func\<close> onto the wrapper and changes nothing in what a call does.
\<close>

datatype ('a, 'e) event =
    FuncCall 'a "'e option"
  | CallbackCall 'a "'e option"
  | LogError "'e list"
  | LogInfo 'e int

type_synonym ('s, 'a, 'e) world = "'s \<times> ('a, 'e) event list"

definition raised :: "'e + 'v \<Rightarrow> 'e option" where
  "raised r = (case r of Inl e \<Rightarrow> Some e | Inr _ \<Rightarrow> None)"

definition call_func ::
  "('a \<Rightarrow> 's \<Rightarrow> ('e + 'v) \<times> 's) \<Rightarrow> 'a \<Rightarrow> ('s, 'a, 'e) world \<Rightarrow> ('e + 'v) \<times> ('s, 'a, 'e) world" where
  "call_func func args w =
     (case func args (fst w) of (r, s') \<Rightarrow> (r, (s', snd w @ [FuncCall args (raised r)])))"

definition call_callback ::
  "('a \<Rightarrow> 's \<Rightarrow> ('e + unit) \<times> 's) \<Rightarrow> 'a \<Rightarrow> ('s, 'a, 'e) world \<Rightarrow> ('e + unit) \<times> ('s, 'a, 'e) world" where
  "call_callback callback args w =
     (case callback args (fst w) of (r, s') \<Rightarrow> (r, (s', snd w @ [CallbackCall args (raised r)])))"

definition logger :: "('a, 'e) event \<Rightarrow> ('s, 'a, 'e) world \<Rightarrow> ('s, 'a, 'e) world" where
  "logger ev w = (fst w, snd w @ [ev])"

text \<open>
  \<^verbatim>\<open>
  def wrapper(*args, **kwargs):
      i = 0
      prev_exceptions = []
      while True:
          try:
              return func(*args, **kwargs)
          except expected_exception as e:
              prev_exceptions.append(e)
              if i >= retry_count:
                  logger.error('Got too many exceptions: %s\nRaising the last one.', prev_exceptions)
                  raise e
              logger.info(..., type(e).__name__, ..., retry_count - i)
              if callback is not None:
                  callback(*args, **kwargs)
              i += 1
  \<close>
  One call of \<open>retryable_loop\<close> is one iteration of the \<open>while\<close> loop, at the counter
  \<open>i\<close> and the history \<open>prev_exceptions\<close>. An error that the \<open>except\<close> clause does
  not match leaves the loop at once, and so does an error raised by \<open>callback\<close>, which runs
  inside the handler. The loop is entered again only while \<open>i < retry_count\<close>, which is
  what makes it terminate.
\<close>

function retryable_loop ::
  "('a \<Rightarrow> 's \<Rightarrow> ('e + 'v) \<times> 's) \<Rightarrow> ('e \<Rightarrow> bool) \<Rightarrow> int \<Rightarrow> ('a \<Rightarrow> 's \<Rightarrow> ('e + unit) \<times> 's) option
     \<Rightarrow> 'a \<Rightarrow> int \<Rightarrow> 'e list \<Rightarrow> ('s, 'a, 'e) world \<Rightarrow> ('e + 'v) \<times> ('s, 'a, 'e) world" where
  "retryable_loop func expected_exception retry_count callback args i prev_exceptions w =
     (case call_func func args w of
        (Inr v, w1) \<Rightarrow> (Inr v, w1)
      | (Inl e, w1) \<Rightarrow>
          if expected_exception e then
            if i \<ge> retry_count then (Inl e, logger (LogError (prev_exceptions @ [e])) w1)
            else
              (case callback of
                 None \<Rightarrow>
                   retryable_loop func expected_exception retry_count callback args (i + 1)
                     (prev_exceptions @ [e]) (logger (LogInfo e (retry_count - i)) w1)
               | Some cb \<Rightarrow>
                   (case call_callback cb args (logger (LogInfo e (retry_count - i)) w1) of
                      (Inl ce, w2) \<Rightarrow> (Inl ce, w2)
                    | (Inr _, w2) \<Rightarrow>
                        retryable_loop func expected_exception retry_count callback args (i + 1)
                          (prev_exceptions @ [e]) w2))
          else (Inl e, w1))"
  by pat_completeness auto
termination
  by (relation "measure (\<lambda>(func, expected_exception, retry_count, callback, args, i, prev_exceptions, w).
        nat (retry_count - i))") auto

declare retryable_loop.simps [simp del]

definition retryable_wrapper ::
  "('a \<Rightarrow> 's \<Rightarrow> ('e + 'v) \<times> 's) \<Rightarrow> ('e \<Rightarrow> bool) \<Rightarrow> int \<Rightarrow> ('a \<Rightarrow> 's \<Rightarrow> ('e + unit) \<times> 's) option
     \<Rightarrow> 'a \<Rightarrow> ('s, 'a, 'e) world \<Rightarrow> ('e + 'v) \<times> ('s, 'a, 'e) world" where
  "retryable_wrapper func expected_exception retry_count callback args w =
     retryable_loop func expected_exception retry_count callback args 0 [] w"

text \<open>
  \<^verbatim>\<open>
  def retryable(func=None, expected_exception=(), *, retry_count: int=1, callback=None):
      if func is None:
          return partial(retryable, expected_exception=expected_exception,
                         retry_count=retry_count, callback=callback)
      @wraps(func)
      def wrapper(*args, **kwargs): ...
      return wrapper
  \<close>
  What \<open>retryable\<close> and \<open>retryable_generator\<close> return is either a
  \<open>functools.partial\<close> object still waiting for the operation, the wrapper of a plain call,
  or the wrapper that makes a generator.
\<close>

datatype ('f, 'cw, 'gw) decorated =
    Partial "'f \<Rightarrow> ('f, 'cw, 'gw) decorated"
  | Call_wrapper 'cw
  | Generator_wrapper 'gw

function retryable ::
  "('a \<Rightarrow> 's \<Rightarrow> ('e + 'v) \<times> 's) option \<Rightarrow> ('e \<Rightarrow> bool) \<Rightarrow> int \<Rightarrow> ('a \<Rightarrow> 's \<Rightarrow> ('e + unit) \<times> 's) option
     \<Rightarrow> ('a \<Rightarrow> 's \<Rightarrow> ('e + 'v) \<times> 's,
         'a \<Rightarrow> ('s, 'a, 'e) world \<Rightarrow> ('e + 'v) \<times> ('s, 'a, 'e) world, 'gw) decorated" where
  "retryable None expected_exception retry_count callback =
     Partial (\<lambda>func. retryable (Some func) expected_exception retry_count callback)"
| "retryable (Some func) expected_exception retry_count callback =
     Call_wrapper (retryable_wrapper func expected_exception retry_count callback)"
  by pat_completeness auto
termination
  by (relation "measure (\<lambda>(func, expected_exception, retry_count, callback).
        case func of None \<Rightarrow> 1 | Some _ \<Rightarrow> 0)") auto


section \<open>Errors and the iterator protocol\<close>

text \<open>
  Two Python exceptions are signals of the iterator protocol, and the generator wrapper
  treats them apart from all others. \<open>StopIteration\<close>, raised by \<open>next\<close>, is the end of an
  iteration; \<open>GeneratorExit\<close> is what closing a generator raises inside it. Since Python
  3.7 (PEP 479) a \<open>StopIteration\<close> that would leave the body of a generator is replaced by
  \<open>RuntimeError("generator raised StopIteration")\<close>, here \<open>GeneratorRaisedStopIteration\<close>.
  Every other exception is \<open>Error x\<close>, with \<open>x\<close> whatever tells such exceptions apart (class,
  instance). \<open>leave_generator\<close> is what becomes of an exception that leaves the body of a
  generator.

  The plain wrapper \<open>retryable\<close> gives none of them a special role, so its model above is
  over an arbitrary type of errors, of which \<open>'x exn\<close> is an instance.
\<close>

datatype 'x exn = StopIteration | GeneratorExit | GeneratorRaisedStopIteration | Error 'x

definition leave_generator :: "'x exn \<Rightarrow> 'x exn" where
  "leave_generator e =
     (case e of
        StopIteration \<Rightarrow> GeneratorRaisedStopIteration
      | GeneratorExit \<Rightarrow> GeneratorExit
      | GeneratorRaisedStopIteration \<Rightarrow> GeneratorRaisedStopIteration
      | Error x \<Rightarrow> Error x)"

section \<open>Retrying sequences (\<open>retryable_generator\<close>)\<close>

text \<open>
  The operation wrapped by \<open>retryable_generator\<close> returns an iterator \<open>'it\<close>. The function
  \<open>nxt\<close> stands for \<open>next\<close> on the iterators of the store: a pull changes the store and
  either returns an element (\<open>Inr\<close>) or raises (\<open>Inl\<close>), \<open>StopIteration\<close> at the end of the
  iteration. Pulls are not written to the journal.
\<close>

definition call_next ::
  "('it \<Rightarrow> 's \<Rightarrow> ('e + 'v) \<times> 's) \<Rightarrow> 'it \<Rightarrow> ('s, 'a, 'e) world \<Rightarrow> ('e + 'v) \<times> ('s, 'a, 'e) world" where
  "call_next nxt it w = (case nxt it (fst w) of (r, s') \<Rightarrow> (r, (s', snd w)))"

text \<open>
  \<^verbatim>\<open>
  def wrapper(*args, **kwargs):
      i = 0
      prev_exceptions = []
      while True:
          try:
              object_to_return = func(*args, **kwargs)
              try:
                  yield next(object_to_return)
              except StopIteration:
                  return
              except GeneratorExit:
                  pass
          except expected_exception as e:
              ...                          # as in retryable
          else:
              yield from object_to_return
              return
  \<close>
  Calling this \<open>wrapper\<close> runs nothing: it makes a generator, whose body runs when the
  consumer pulls. The generator is modelled by its resumption points. \<open>Created\<close>: not
  started. \<open>First_yielded\<close>: suspended at \<open>yield next(object_to_return)\<close>.
  \<open>Delegating\<close>: suspended inside \<open>yield from object_to_return\<close>. \<open>Finished\<close>: returned
  or raised. A pull from the generator returns an element or raises; when the body returns,
  the pull raises \<open>StopIteration\<close>, and what the body raises reaches the consumer through
  \<open>leave_generator\<close>. The consumer is taken to pull only (\<open>next\<close>, a \<open>for\<close> loop); it
  neither closes the generator nor throws into it.

  \<open>try_body\<close> is the body of the outer \<open>try\<close> up to the first \<open>yield\<close>. \<open>Raised e\<close>:
  \<open>func\<close> raised \<open>e\<close>, or the first pull raised an \<open>e\<close> that the inner \<open>try\<close> does not
  catch. \<open>Returned\<close>: the first pull raised \<open>StopIteration\<close>, and the body returns.
  \<open>Passed\<close>: the first pull raised \<open>GeneratorExit\<close>, which the inner \<open>try\<close> swallows, so
  that control goes on to the \<open>else\<close> branch. \<open>Yielded\<close>: the first pull returned \<open>v\<close>,
  which is yielded.
\<close>

datatype 'it generator_state = Created | First_yielded 'it | Delegating 'it | Finished

datatype ('x, 'it, 'v) attempt = Raised "'x exn" | Returned | Passed 'it | Yielded 'it 'v

definition try_body ::
  "('a \<Rightarrow> 's \<Rightarrow> ('x exn + 'it) \<times> 's) \<Rightarrow> ('it \<Rightarrow> 's \<Rightarrow> ('x exn + 'v) \<times> 's) \<Rightarrow> 'a
     \<Rightarrow> ('s, 'a, 'x exn) world \<Rightarrow> ('x, 'it, 'v) attempt \<times> ('s, 'a, 'x exn) world" where
  "try_body func nxt args w =
     (case call_func func args w of
        (Inl e, w1) \<Rightarrow> (Raised e, w1)
      | (Inr object_to_return, w1) \<Rightarrow>
          (case call_next nxt object_to_return w1 of
             (Inr v, w2) \<Rightarrow> (Yielded object_to_return v, w2)
           | (Inl e, w2) \<Rightarrow>
               (case e of
                  StopIteration \<Rightarrow> (Returned, w2)
                | GeneratorExit \<Rightarrow> (Passed object_to_return, w2)
                | GeneratorRaisedStopIteration \<Rightarrow> (Raised e, w2)
                | Error x \<Rightarrow> (Raised e, w2))))"

text \<open>
  \<open>yield from object_to_return\<close>, in the \<open>else\<close> branch and so outside every handler: an
  element of the iterator is yielded; \<open>StopIteration\<close> ends the delegation and the body
  returns, so that the consumer's pull raises \<open>StopIteration\<close>; any other exception leaves
  the body as it is.
\<close>

definition yield_from ::
  "('it \<Rightarrow> 's \<Rightarrow> ('x exn + 'v) \<times> 's) \<Rightarrow> 'it \<Rightarrow> ('s, 'a, 'x exn) world
     \<Rightarrow> (('x exn + 'v) \<times> 'it generator_state) \<times> ('s, 'a, 'x exn) world" where
  "yield_from nxt object_to_return w =
     (case call_next nxt object_to_return w of
        (Inr v, w1) \<Rightarrow> ((Inr v, Delegating object_to_return), w1)
      | (Inl e, w1) \<Rightarrow> ((Inl e, Finished), w1))"

text \<open>
  One call of \<open>retryable_generator_loop\<close> is one iteration of the \<open>while\<close> loop, from the
  top of the loop to the next suspension or the end of the generator. The handler is the one
  of \<open>retryable\<close>; the three exceptions that leave the body from it (an unmatched one, the
  last matched one when the budget is spent, one raised by \<open>callback\<close>) pass through
  \<open>leave_generator\<close>.
\<close>

function retryable_generator_loop ::
  "('a \<Rightarrow> 's \<Rightarrow> ('x exn + 'it) \<times> 's) \<Rightarrow> ('it \<Rightarrow> 's \<Rightarrow> ('x exn + 'v) \<times> 's) \<Rightarrow> ('x exn \<Rightarrow> bool)
     \<Rightarrow> int \<Rightarrow> ('a \<Rightarrow> 's \<Rightarrow> ('x exn + unit) \<times> 's) option \<Rightarrow> 'a \<Rightarrow> int \<Rightarrow> 'x exn list
     \<Rightarrow> ('s, 'a, 'x exn) world
     \<Rightarrow> (('x exn + 'v) \<times> 'it generator_state) \<times> ('s, 'a, 'x exn) world" where
  "retryable_generator_loop func nxt expected_exception retry_count callback args i prev_exceptions w =
     (case try_body func nxt args w of
        (Yielded object_to_return v, w1) \<Rightarrow> ((Inr v, First_yielded object_to_return), w1)
      | (Returned, w1) \<Rightarrow> ((Inl StopIteration, Finished), w1)
      | (Passed object_to_return, w1) \<Rightarrow> yield_from nxt object_to_return w1
      | (Raised e, w1) \<Rightarrow>
          if expected_exception e then
            if i \<ge> retry_count then
              ((Inl (leave_generator e), Finished), logger (LogError (prev_exceptions @ [e])) w1)
            else
              (case callback of
                 None \<Rightarrow>
                   retryable_generator_loop func nxt expected_exception retry_count callback args
                     (i + 1) (prev_exceptions @ [e]) (logger (LogInfo e (retry_count - i)) w1)
               | Some cb \<Rightarrow>
                   (case call_callback cb args (logger (LogInfo e (retry_count - i)) w1) of
                      (Inl ce, w2) \<Rightarrow> ((Inl (leave_generator ce), Finished), w2)
                    | (Inr _, w2) \<Rightarrow>
                        retryable_generator_loop func nxt expected_exception retry_count callback
                          args (i + 1) (prev_exceptions @ [e]) w2))
          else ((Inl (leave_generator e), Finished), w1))"
  by pat_completeness auto
termination
  by (relation "measure (\<lambda>(func, nxt, expected_exception, retry_count, callback, args, i,
        prev_exceptions, w). nat (retry_count - i))") auto

declare retryable_generator_loop.simps [simp del]

text \<open>
  A pull from the generator. When the consumer pulls again after the first element, the
  outer \<open>try\<close> has ended without an error, so control is in the \<open>else\<close> branch. A pull from a
  generator that has finished raises \<open>StopIteration\<close>.
\<close>

fun retryable_generator_wrapper ::
  "('a \<Rightarrow> 's \<Rightarrow> ('x exn + 'it) \<times> 's) \<Rightarrow> ('it \<Rightarrow> 's \<Rightarrow> ('x exn + 'v) \<times> 's) \<Rightarrow> ('x exn \<Rightarrow> bool)
     \<Rightarrow> int \<Rightarrow> ('a \<Rightarrow> 's \<Rightarrow> ('x exn + unit) \<times> 's) option \<Rightarrow> 'a \<Rightarrow> 'it generator_state
     \<Rightarrow> ('s, 'a, 'x exn) world
     \<Rightarrow> (('x exn + 'v) \<times> 'it generator_state) \<times> ('s, 'a, 'x exn) world" where
  "retryable_generator_wrapper func nxt expected_exception retry_count callback args Created w =
     retryable_generator_loop func nxt expected_exception retry_count callback args 0 [] w"
| "retryable_generator_wrapper func nxt expected_exception retry_count callback args
     (First_yielded object_to_return) w = yield_from nxt object_to_return w"
| "retryable_generator_wrapper func nxt expected_exception retry_count callback args
     (Delegating object_to_return) w = yield_from nxt object_to_return w"
| "retryable_generator_wrapper func nxt expected_exception retry_count callback args Finished w =
     ((Inl StopIteration, Finished), w)"

text \<open>
  \<^verbatim>\<open>
  def retryable_generator(func=None, expected_exception=(), *, retry_count: int=1, callback=None):
      if func is None:
          return partial(retryable, expected_exception=expected_exception,
                         retry_count=retry_count, callback=callback)
      @wraps(func)
      def wrapper(*args, **kwargs): ...
      return wrapper
  \<close>
\<close>

definition retryable_generator ::
  "('a \<Rightarrow> 's \<Rightarrow> ('x exn + 'it) \<times> 's) option \<Rightarrow> ('it \<Rightarrow> 's \<Rightarrow> ('x exn + 'v) \<times> 's)
     \<Rightarrow> ('x exn \<Rightarrow> bool) \<Rightarrow> int \<Rightarrow> ('a \<Rightarrow> 's \<Rightarrow> ('x exn + unit) \<times> 's) option
     \<Rightarrow> ('a \<Rightarrow> 's \<Rightarrow> ('x exn + 'it) \<times> 's,
         'a \<Rightarrow> ('s, 'a, 'x exn) world \<Rightarrow> ('x exn + 'it) \<times> ('s, 'a, 'x exn) world,
         'a \<Rightarrow> 'it generator_state \<Rightarrow> ('s, 'a, 'x exn) world
           \<Rightarrow> (('x exn + 'v) \<times> 'it generator_state) \<times> ('s, 'a, 'x exn) world) decorated" where
  "retryable_generator func nxt expected_exception retry_count callback =
     (case func of
        None \<Rightarrow> Partial (\<lambda>func. retryable (Some func) expected_exception retry_count callback)
      | Some f \<Rightarrow>
          Generator_wrapper (retryable_generator_wrapper f nxt expected_exception retry_count callback))"

section \<open>Observing a run\<close>

text \<open>
  A consumer that pulls at most \<open>n\<close> times from a generator or an iterator, given by its step
  function, as a \<open>for\<close> loop does: it collects the elements, stops normally at
  \<open>StopIteration\<close> and fails with any other exception.
  \<open>func_calls\<close>, \<open>func_errors\<close> and \<open>callback_calls\<close> read off a journal the arguments of
  the invocations of \<open>func\<close>, the errors they raised and the arguments of the invocations of
  \<open>callback\<close>.
\<close>

datatype 'e ending = Exhausted | Failed 'e | Pending

fun consume ::
  "('g \<Rightarrow> 'w \<Rightarrow> (('x exn + 'v) \<times> 'g) \<times> 'w) \<Rightarrow> nat \<Rightarrow> 'g \<Rightarrow> 'w
     \<Rightarrow> ('v list \<times> 'x exn ending) \<times> 'w" where
  "consume step 0 g w = (([], Pending), w)"
| "consume step (Suc n) g w =
     (case step g w of
        ((Inr v, g'), w') \<Rightarrow>
          (case consume step n g' w' of ((vs, r), w'') \<Rightarrow> ((v # vs, r), w''))
      | ((Inl e, g'), w') \<Rightarrow>
          (case e of
             StopIteration \<Rightarrow> (([], Exhausted), w')
           | GeneratorExit \<Rightarrow> (([], Failed e), w')
           | GeneratorRaisedStopIteration \<Rightarrow> (([], Failed e), w')
           | Error x \<Rightarrow> (([], Failed e), w')))"

definition iterator_next ::
  "('it \<Rightarrow> 's \<Rightarrow> ('e + 'v) \<times> 's) \<Rightarrow> 'it \<Rightarrow> ('s, 'a, 'e) world
     \<Rightarrow> (('e + 'v) \<times> 'it) \<times> ('s, 'a, 'e) world" where
  "iterator_next nxt it w = (case call_next nxt it w of (r, w') \<Rightarrow> ((r, it), w'))"

fun func_calls :: "('a, 'e) event list \<Rightarrow> 'a list" where
  "func_calls [] = []"
| "func_calls (FuncCall a r # tr) = a # func_calls tr"
| "func_calls (ev # tr) = func_calls tr"

fun func_errors :: "('a, 'e) event list \<Rightarrow> 'e list" where
  "func_errors [] = []"
| "func_errors (FuncCall a (Some e) # tr) = e # func_errors tr"
| "func_errors (ev # tr) = func_errors tr"

fun callback_calls :: "('a, 'e) event list \<Rightarrow> 'a list" where
  "callback_calls [] = []"
| "callback_calls (CallbackCall a r # tr) = a # callback_calls tr"
| "callback_calls (ev # tr) = callback_calls tr"

text \<open>
  \<open>callback_failed\<close> holds for the journal entries of a callback invocation that raised.
  \<open>aborted_or_quiet leave args err evs\<close> describes the entries \<open>evs\<close> a run has written,
  with \<open>err\<close> the error the run raised, if any: either no callback has raised, or the last
  entry is the one callback invocation that raised, and the run raised what \<open>leave\<close> makes
  of its error.
\<close>

fun callback_failed :: "('a, 'e) event \<Rightarrow> bool" where
  "callback_failed (CallbackCall a (Some e)) = True"
| "callback_failed ev = False"

definition aborted_or_quiet ::
  "('e \<Rightarrow> 'e) \<Rightarrow> 'a \<Rightarrow> 'e option \<Rightarrow> ('a, 'e) event list \<Rightarrow> bool" where
  "aborted_or_quiet leave args err evs =
     (list_all (\<lambda>ev. \<not> callback_failed ev) evs
      \<or> (\<exists>pre ce. evs = pre @ [CallbackCall args (Some ce)]
            \<and> list_all (\<lambda>ev. \<not> callback_failed ev) pre \<and> err = Some (leave ce)))"

section \<open>Test doubles\<close>

text \<open>
  Concrete operations in the manner of \<open>tests/test_util.py\<close>, which wraps
  \<open>mock.Mock(side_effect=[ValueError, 42])\<close> and calls the result with \<open>(202, '03')\<close>.
  An exception other than the signals of the iterator protocol is the name of its class and
  a serial number that tells instances apart. \<open>isinstance classes e\<close> is what
  \<open>except classes\<close> tests: whether one of \<open>classes\<close> is the class of \<open>e\<close> or one of its base
  classes, with Python's hierarchy for the built-in classes named in \<open>bases\<close>; any other
  class derives from \<open>Exception\<close>.

  The store counts the calls of the wrapped mock and of the callback mock, and keeps for each
  iterator made so far how many times it has been pulled.
  \<open>real_method side_effect\<close> answers its \<open>k\<close>-th call with the \<open>k\<close>-th entry of
  \<open>side_effect\<close>, raising it when it is an exception class, and raises \<open>StopIteration\<close> once
  the list is used up, as a mock does. \<open>raising_method cls\<close> raises a new instance of \<open>cls\<close>
  at every call. \<open>generator_function\<close> returns a new iterator at each call, the \<open>k\<close>-th of
  which runs through the \<open>k\<close>-th script of \<open>scripts\<close> and then raises \<open>StopIteration\<close>.
\<close>

type_synonym exception = "(string \<times> nat) exn"

definition bases :: "string \<Rightarrow> string list" where
  "bases cls =
     (if cls = ''BaseException'' then [''BaseException'']
      else if cls = ''GeneratorExit'' then [''GeneratorExit'', ''BaseException'']
      else if cls = ''KeyboardInterrupt'' then [''KeyboardInterrupt'', ''BaseException'']
      else if cls = ''SystemExit'' then [''SystemExit'', ''BaseException'']
      else if cls = ''NotImplementedError''
        then [''NotImplementedError'', ''RuntimeError'', ''Exception'', ''BaseException'']
      else if cls = ''UnicodeError''
        then [''UnicodeError'', ''ValueError'', ''Exception'', ''BaseException'']
      else if cls = ''Exception'' then [''Exception'', ''BaseException'']
      else [cls, ''Exception'', ''BaseException''])"

definition class_of :: "exception \<Rightarrow> string" where
  "class_of e =
     (case e of
        StopIteration \<Rightarrow> ''StopIteration''
      | GeneratorExit \<Rightarrow> ''GeneratorExit''
      | GeneratorRaisedStopIteration \<Rightarrow> ''RuntimeError''
      | Error x \<Rightarrow> fst x)"

definition isinstance :: "string list \<Rightarrow> exception \<Rightarrow> bool" where
  "isinstance classes e = list_ex (\<lambda>cls. cls \<in> set classes) (bases (class_of e))"

type_synonym call_args = "int \<times> string"

record mocks =
  real_count :: nat
  callback_count :: nat
  cursors :: "nat list"

definition fresh :: mocks where
  "fresh = \<lparr>real_count = 0, callback_count = 0, cursors = []\<rparr>"

definition mocks_at :: "nat \<Rightarrow> nat \<Rightarrow> nat list \<Rightarrow> mocks" where
  "mocks_at r c cs = \<lparr>real_count = r, callback_count = c, cursors = cs\<rparr>"

definition raise_new :: "string \<Rightarrow> nat \<Rightarrow> exception" where
  "raise_new cls serial =
     (if cls = ''StopIteration'' then StopIteration
      else if cls = ''GeneratorExit'' then GeneratorExit
      else Error (cls, serial))"

definition real_method :: "(string + int) list \<Rightarrow> call_args \<Rightarrow> mocks \<Rightarrow> (exception + int) \<times> mocks" where
  "real_method side_effect args s =
     ((if real_count s < length side_effect
       then (case side_effect ! real_count s of
               Inl cls \<Rightarrow> Inl (raise_new cls (real_count s))
             | Inr v \<Rightarrow> Inr v)
       else Inl StopIteration),
      s\<lparr>real_count := Suc (real_count s)\<rparr>)"

definition raising_method :: "string \<Rightarrow> call_args \<Rightarrow> mocks \<Rightarrow> (exception + int) \<times> mocks" where
  "raising_method cls args s =
     (Inl (raise_new cls (real_count s)), s\<lparr>real_count := Suc (real_count s)\<rparr>)"

definition callback_method :: "call_args \<Rightarrow> mocks \<Rightarrow> (exception + unit) \<times> mocks" where
  "callback_method args s = (Inr (), s\<lparr>callback_count := Suc (callback_count s)\<rparr>)"

definition raising_callback :: "string \<Rightarrow> call_args \<Rightarrow> mocks \<Rightarrow> (exception + unit) \<times> mocks" where
  "raising_callback cls args s =
     (Inl (raise_new cls (100 + callback_count s)),
      s\<lparr>callback_count := Suc (callback_count s)\<rparr>)"

definition generator_function :: "call_args \<Rightarrow> mocks \<Rightarrow> (exception + nat) \<times> mocks" where
  "generator_function args s =
     (Inr (real_count s), s\<lparr>real_count := Suc (real_count s), cursors := cursors s @ [0]\<rparr>)"

definition generator_next ::
  "(exception + string) list list \<Rightarrow> nat \<Rightarrow> mocks \<Rightarrow> (exception + string) \<times> mocks" where
  "generator_next scripts it s =
     (if it < length (cursors s) then
        ((if it < length scripts \<and> cursors s ! it < length (scripts ! it)
          then scripts ! it ! (cursors s ! it) else Inl StopIteration),
         s\<lparr>cursors := (cursors s)[it := Suc (cursors s ! it)]\<rparr>)
      else (Inl (Error (''TypeError'', it)), s))"

definition flaky_scripts :: "(exception + string) list list" where
  "flaky_scripts = [[Inl (Error (''ValueError'', 0))], [Inr ''a'', Inr ''b'', Inr ''c'']]"

definition broken_scripts :: "(exception + string) list list" where
  "broken_scripts = [[Inl (Error (''NotImplementedError'', 0))]]"

definition empty_scripts :: "(exception + string) list list" where
  "empty_scripts = [[]]"

definition flaky_then_broken :: "(exception + string) list list" where
  "flaky_then_broken = [[Inl (Error (''ValueError'', 0))], [Inl (Error (''NotImplementedError'', 1))]]"

definition flaky_then_empty :: "(exception + string) list list" where
  "flaky_then_empty = [[Inl (Error (''ValueError'', 0))], []]"

section \<open>Properties of \<open>bytes_increment\<close>\<close>

subsection \<open>Auxiliary facts\<close>


lemma loop_all_ff: "set is \<subseteq> {i. b ! i = 0xff} \<Longrightarrow> bytes_increment_loop b is = None"
  by (induction "is") auto

lemma loop_decomp:
  assumes "x \<noteq> 0xff"
  shows "m \<le> n \<Longrightarrow> bytes_increment_loop (p @ x # replicate n 0xff) (rev [0..<length p + 1 + m]) = Some (p @ [x + 1])"
proof (induction m)
  case 0
  then show ?case using assms by simp
next
  case (Suc m)
  then show ?case by (simp add: nth_append)
qed

lemma bytes_increment_decomp:
  assumes "x \<noteq> 0xff"
  shows "bytes_increment (p @ x # replicate n 0xff) = Some (p @ [x + 1])"
  using loop_decomp[OF assms, of n n p] by (simp add: bytes_increment_def)

lemma bytes_increment_all_ff: "bytes_increment (replicate n 0xff) = None"
  unfolding bytes_increment_def by (rule loop_all_ff) auto

lemma bytes_split:
  "(\<exists>n. b = replicate n (0xff::8 word)) \<or> (\<exists>p x n. x \<noteq> 0xff \<and> b = p @ x # replicate n 0xff)"
proof (induction b rule: rev_induct)
  case Nil
  then show ?case by simp
next
  case (snoc y ys)
  show ?case
  proof (cases "y = 0xff")
    case True
    from snoc show ?thesis
    proof
      assume "\<exists>n. ys = replicate n 0xff"
      then obtain n where "ys = replicate n 0xff" ..
      then have "ys @ [y] = replicate (Suc n) 0xff" using True by (simp add: replicate_append_same)
      then show ?thesis by blast
    next
      assume "\<exists>p x n. x \<noteq> 0xff \<and> ys = p @ x # replicate n 0xff"
      then obtain p x n where "x \<noteq> 0xff" "ys = p @ x # replicate n 0xff" by blast
      then have "ys @ [y] = p @ x # replicate (Suc n) 0xff" using True by (simp add: replicate_append_same)
      then show ?thesis using \<open>x \<noteq> 0xff\<close> by blast
    qed
  next
    case False
    then have "y \<noteq> 0xff \<and> ys @ [y] = ys @ y # replicate 0 0xff" by simp
    then show ?thesis by blast
  qed
qed

lemma not_all_ff_split:
  assumes "\<not> set b \<subseteq> {0xff::8 word}"
  obtains p x n where "x \<noteq> 0xff" "b = p @ x # replicate n 0xff"
  using bytes_split[of b] assms by auto

lemma bytes_lt_append_same: "bytes_lt (p @ u) (p @ v) = bytes_lt u v"
  by (induction p) auto

lemma bytes_lt_Nil_right: "\<not> bytes_lt u []"
  by (cases u) auto

text \<open>\<open>bytes_lt\<close> is a strict total order, as the comparison of byte strings is.\<close>

lemma bytes_lt_irrefl: "\<not> bytes_lt u u"
  by (induction u) auto

lemma bytes_lt_trans: "bytes_lt u v \<Longrightarrow> bytes_lt v w \<Longrightarrow> bytes_lt u w"
proof (induction u v arbitrary: w rule: bytes_lt.induct)
  case (2 y ys)
  then show ?case by (cases w) auto
next
  case (4 x xs y ys)
  then show ?case by (cases w) auto
qed auto

lemma bytes_lt_total: "bytes_lt u v \<or> u = v \<or> bytes_lt v u"
  by (induction u v rule: bytes_lt.induct) auto

lemma bytes_lt_asym: "bytes_lt u v \<Longrightarrow> \<not> bytes_lt v u"
  by (induction u v rule: bytes_lt.induct) auto

lemma word8_lt_succ: "(x::8 word) \<noteq> 0xff \<Longrightarrow> x < x + 1"
  by unat_arith simp

lemma word8_lt_succ_le: "(x::8 word) \<noteq> 0xff \<Longrightarrow> y < x + 1 \<Longrightarrow> y \<le> x"
  by unat_arith

lemma word8_not_above_ff: "\<not> (0xff::8 word) < z"
  by unat_arith simp

lemma bytes_lt_snoc_zero: "bytes_lt w (w @ [0])"
  by (induction w) auto

lemma bytes_lt_ff_Cons: "bytes_lt w t \<Longrightarrow> bytes_lt w (0xff # t)"
proof (induction w arbitrary: t)
  case Nil
  then show ?case by simp
next
  case (Cons y w)
  then obtain z t' where t: "t = z # t'" by (cases t) auto
  show ?case
  proof (cases "y = 0xff")
    case True
    with Cons.prems t have "z = 0xff" "bytes_lt w t'" by (auto simp: word8_not_above_ff)
    with Cons.IH[of t'] True t show ?thesis by simp
  next
    case False
    then have "y < 0xff" by unat_arith simp
    then show ?thesis by simp
  qed
qed

lemma bytes_lt_ff_replicate: "bytes_lt w t \<Longrightarrow> bytes_lt w (replicate n 0xff @ t)"
  by (induction n) (auto intro: bytes_lt_ff_Cons)

lemma below_successor_extends:
  assumes "x \<noteq> 0xff"
  shows "bytes_lt u (p @ [x + 1]) \<Longrightarrow> \<exists>t. bytes_lt u ((p @ x # replicate n 0xff) @ t)"
proof (induction p arbitrary: u)
  case Nil
  show ?case
  proof (cases u)
    case Nil
    then show ?thesis by simp
  next
    case (Cons y w)
    with Nil.prems have "y < x + 1" by (simp add: bytes_lt_Nil_right)
    then have "y \<le> x" using assms by (rule word8_lt_succ_le[rotated])
    have "bytes_lt w (replicate n 0xff @ w @ [0])"
      by (rule bytes_lt_ff_replicate) (rule bytes_lt_snoc_zero)
    then have "bytes_lt u (([] @ x # replicate n 0xff) @ w @ [0])"
      using Cons \<open>y \<le> x\<close> by auto
    then show ?thesis by blast
  qed
next
  case (Cons a p)
  show ?case
  proof (cases u)
    case Nil
    then show ?thesis by simp
  next
    case u: (Cons y w)
    show ?thesis
    proof (cases "y < a")
      case True
      then show ?thesis using u by simp
    next
      case False
      with Cons.prems u have "y = a" "bytes_lt w (p @ [x + 1])" by auto
      from Cons.IH[OF this(2)] obtain t where "bytes_lt w ((p @ x # replicate n 0xff) @ t)" ..
      then show ?thesis using u \<open>y = a\<close> by auto
    qed
  qed
qed

subsection \<open>The successor\<close>

text \<open>
  C6. For every byte string \<open>b\<close> that is not made of \<open>0xff\<close> bytes only,
  \<open>bytes_increment b\<close> is a byte string \<open>r\<close> (not the sentinel) that is strictly
  greater than \<open>b\<close> in the byte-wise lexicographic order and no longer than \<open>b\<close>.
  It is obtained from the last position \<open>k\<close> of \<open>b\<close> whose byte is below \<open>0xff\<close>
  (every byte after \<open>k\<close> is \<open>0xff\<close>): the byte at \<open>k\<close> is incremented, without
  wrap-around, and everything after it is dropped.
\<close>

theorem bytes_increment_successor:
  assumes "\<not> set b \<subseteq> {0xff}"
  shows "\<exists>r k. bytes_increment b = Some r \<and> bytes_lt b r \<and> length r \<le> length b
           \<and> k < length b \<and> b ! k \<noteq> 0xff \<and> unat (b ! k + 1) = unat (b ! k) + 1
           \<and> set (drop (Suc k) b) \<subseteq> {0xff}
           \<and> r = take k b @ [b ! k + 1]"
proof -
  from assms obtain p x n where x: "x \<noteq> 0xff" and b: "b = p @ x # replicate n 0xff"
    by (rule not_all_ff_split)
  have 1: "bytes_increment b = Some (p @ [x + 1])"
    using b bytes_increment_decomp[OF x] by simp
  have 2: "bytes_lt b (p @ [x + 1])"
    using b word8_lt_succ[OF x] by (simp add: bytes_lt_append_same)
  have 3: "unat (x + 1) = unat x + 1"
    using x by unat_arith simp
  have "bytes_increment b = Some (p @ [x + 1]) \<and> bytes_lt b (p @ [x + 1])
        \<and> length (p @ [x + 1]) \<le> length b
        \<and> length p < length b \<and> b ! length p \<noteq> 0xff
        \<and> unat (b ! length p + 1) = unat (b ! length p) + 1
        \<and> set (drop (Suc (length p)) b) \<subseteq> {0xff}
        \<and> p @ [x + 1] = take (length p) b @ [b ! length p + 1]"
    using 1 2 3 x by (auto simp: b)
  then show ?thesis by blast
qed

theorem bytes_increment_successor_witness:
  "\<not> set [0x12, 0xff :: 8 word] \<subseteq> {0xff} \<and>
   (\<exists>r k. bytes_increment [0x12, 0xff] = Some r \<and> bytes_lt [0x12, 0xff] r
      \<and> length r \<le> length [0x12, 0xff :: 8 word]
      \<and> k < length [0x12, 0xff :: 8 word] \<and> [0x12, 0xff :: 8 word] ! k \<noteq> 0xff
      \<and> unat ([0x12, 0xff :: 8 word] ! k + 1) = unat ([0x12, 0xff :: 8 word] ! k) + 1
      \<and> set (drop (Suc k) [0x12, 0xff :: 8 word]) \<subseteq> {0xff}
      \<and> r = take k [0x12, 0xff] @ [[0x12, 0xff] ! k + 1])"
proof -
  have h: "\<not> set [0x12, 0xff :: 8 word] \<subseteq> {0xff}" by simp
  show ?thesis using h bytes_increment_successor [OF h] by blast
qed

text \<open>
  C7. \<open>bytes_increment\<close> returns the sentinel \<open>None\<close> exactly for the byte strings
  all of whose bytes are \<open>0xff\<close>; the empty byte string is one of them.
\<close>

theorem bytes_increment_sentinel_iff:
  "bytes_increment b = None \<longleftrightarrow> set b \<subseteq> {0xff}"
proof (cases "set b \<subseteq> {0xff}")
  case True
  then have "b = replicate (length b) 0xff"
    by (induction b) auto
  then show ?thesis using bytes_increment_all_ff[of "length b"] True by simp
next
  case False
  then obtain p x n where "x \<noteq> 0xff" "b = p @ x # replicate n 0xff"
    by (rule not_all_ff_split)
  then show ?thesis using False bytes_increment_decomp[of x p n] by simp
qed

theorem bytes_increment_sentinel_iff_witness:
  "bytes_increment [0xff, 0xff, 0xff] = None \<and> bytes_increment [] = None
   \<and> bytes_increment [0x12, 0xff] \<noteq> None"
  using bytes_increment_sentinel_iff [of "[0xff, 0xff, 0xff]"]
    bytes_increment_sentinel_iff [of "[]"]
    bytes_increment_sentinel_iff [of "[0x12, 0xff]"]
  by simp

text \<open>
  C8. For every byte string \<open>b\<close> that is not made of \<open>0xff\<close> bytes only,
  \<open>bytes_increment b\<close> is the least exclusive upper bound of the byte strings that
  start with \<open>b\<close>: every \<open>b @ t\<close> is strictly below it, and every byte string \<open>u\<close>
  strictly below it is itself strictly below some \<open>b @ t\<close>, so \<open>u\<close> is not above
  all the byte strings that start with \<open>b\<close>.
\<close>

theorem bytes_increment_prefix_bound:
  assumes "\<not> set b \<subseteq> {0xff}"
  shows "\<exists>r. bytes_increment b = Some r
           \<and> (\<forall>t. bytes_lt (b @ t) r)
           \<and> (\<forall>u. bytes_lt u r \<longrightarrow> (\<exists>t. bytes_lt u (b @ t) \<and> \<not> bytes_lt (b @ t) u))"
proof -
  from assms obtain p x n where x: "x \<noteq> 0xff" and b: "b = p @ x # replicate n 0xff"
    by (rule not_all_ff_split)
  have 1: "bytes_increment b = Some (p @ [x + 1])"
    using b bytes_increment_decomp[OF x] by simp
  have 2: "bytes_lt (b @ t) (p @ [x + 1])" for t
    using b word8_lt_succ[OF x] by (simp add: bytes_lt_append_same)
  have 3: "\<exists>t. bytes_lt u (b @ t) \<and> \<not> bytes_lt (b @ t) u" if "bytes_lt u (p @ [x + 1])" for u
  proof -
    from below_successor_extends[OF x that, of n] obtain t where "bytes_lt u (b @ t)"
      unfolding b ..
    then show ?thesis using bytes_lt_asym by blast
  qed
  show ?thesis using 1 2 3 by blast
qed

theorem bytes_increment_prefix_bound_witness:
  "\<not> set [0x42, 0x42, 0xff :: 8 word] \<subseteq> {0xff} \<and>
   (\<exists>r. bytes_increment [0x42, 0x42, 0xff] = Some r
      \<and> (\<forall>t. bytes_lt ([0x42, 0x42, 0xff] @ t) r)
      \<and> (\<forall>u. bytes_lt u r \<longrightarrow>
            (\<exists>t. bytes_lt u ([0x42, 0x42, 0xff] @ t) \<and> \<not> bytes_lt ([0x42, 0x42, 0xff] @ t) u)))"
proof -
  have h: "\<not> set [0x42, 0x42, 0xff :: 8 word] \<subseteq> {0xff}" by simp
  show ?thesis using h bytes_increment_prefix_bound [OF h] by blast
qed

section \<open>Properties of \<open>retryable\<close>\<close>

lemma call_func_eq:
  "func args s = (r, s') \<Longrightarrow> call_func func args (s, tr) = (r, (s', tr @ [FuncCall args (raised r)]))"
  by (simp add: call_func_def)

lemma call_callback_eq:
  "cb args s = (r, s') \<Longrightarrow> call_callback cb args (s, tr) = (r, (s', tr @ [CallbackCall args (raised r)]))"
  by (simp add: call_callback_def)

lemma call_next_eq:
  "nxt it s = (r, s') \<Longrightarrow> call_next nxt it (s, tr) = (r, (s', tr))"
  by (simp add: call_next_def)

lemma logger_eq: "logger ev (s, tr) = (s, tr @ [ev])"
  by (simp add: logger_def)

lemma raised_simps [simp]: "raised (Inl e) = Some e" "raised (Inr v) = None"
  by (simp_all add: raised_def)

lemma retryable_loop_returns:
  "func args s = (Inr v, s') \<Longrightarrow>
   retryable_loop func ex rc cb args i prev (s, tr) = (Inr v, (s', tr @ [FuncCall args None]))"
  by (subst retryable_loop.simps) (simp add: call_func_eq)

lemma retryable_loop_unexpected:
  "func args s = (Inl e, s') \<Longrightarrow> \<not> ex e \<Longrightarrow>
   retryable_loop func ex rc cb args i prev (s, tr) = (Inl e, (s', tr @ [FuncCall args (Some e)]))"
  by (subst retryable_loop.simps) (simp add: call_func_eq)

lemma retryable_loop_exhausted:
  "func args s = (Inl e, s') \<Longrightarrow> ex e \<Longrightarrow> rc \<le> i \<Longrightarrow>
   retryable_loop func ex rc cb args i prev (s, tr) =
     (Inl e, (s', tr @ [FuncCall args (Some e), LogError (prev @ [e])]))"
  by (subst retryable_loop.simps) (simp add: call_func_eq logger_eq)

lemma retryable_loop_retry_plain:
  "func args s = (Inl e, s') \<Longrightarrow> ex e \<Longrightarrow> i < rc \<Longrightarrow>
   retryable_loop func ex rc None args i prev (s, tr) =
     retryable_loop func ex rc None args (i + 1) (prev @ [e])
       (s', tr @ [FuncCall args (Some e), LogInfo e (rc - i)])"
  by (subst retryable_loop.simps) (simp add: call_func_eq logger_eq)

lemma retryable_loop_retry_callback:
  "func args s = (Inl e, s') \<Longrightarrow> ex e \<Longrightarrow> i < rc \<Longrightarrow> c args s' = (Inr u, s'') \<Longrightarrow>
   retryable_loop func ex rc (Some c) args i prev (s, tr) =
     retryable_loop func ex rc (Some c) args (i + 1) (prev @ [e])
       (s'', tr @ [FuncCall args (Some e), LogInfo e (rc - i), CallbackCall args None])"
  by (subst retryable_loop.simps) (simp add: call_func_eq logger_eq call_callback_eq)

lemma retryable_loop_callback_raises:
  "func args s = (Inl e, s') \<Longrightarrow> ex e \<Longrightarrow> i < rc \<Longrightarrow> c args s' = (Inl ce, s'') \<Longrightarrow>
   retryable_loop func ex rc (Some c) args i prev (s, tr) =
     (Inl ce, (s'', tr @ [FuncCall args (Some e), LogInfo e (rc - i), CallbackCall args (Some ce)]))"
  by (subst retryable_loop.simps) (simp add: call_func_eq logger_eq call_callback_eq)

lemma retryable_loop_always_failing:
  assumes fail: "\<And>s. \<exists>e s'. func args s = (Inl e, s') \<and> ex e"
    and cbok: "\<And>c s. cb = Some c \<Longrightarrow> \<exists>s'. c args s = (Inr (), s')"
  shows "n = nat (rc - i) \<Longrightarrow> i \<le> rc \<Longrightarrow>
    \<exists>e s' evs. retryable_loop func ex rc cb args i prev (s, tr) = (Inl e, (s', tr @ evs))
      \<and> func_calls evs = replicate (n + 1) args
      \<and> callback_calls evs = (case cb of None \<Rightarrow> [] | Some c \<Rightarrow> replicate n args)
      \<and> length (func_errors evs) = n + 1 \<and> last (func_errors evs) = e
      \<and> evs \<noteq> [] \<and> last evs = LogError (prev @ func_errors evs)"
proof (induction n arbitrary: i prev s tr)
  case 0
  obtain e s1 where f: "func args s = (Inl e, s1)" "ex e" using fail by blast
  have "rc \<le> i" using 0 by simp
  then have "retryable_loop func ex rc cb args i prev (s, tr) =
     (Inl e, (s1, tr @ [FuncCall args (Some e), LogError (prev @ [e])]))"
    using f by (simp add: retryable_loop_exhausted)
  moreover have "func_calls [FuncCall args (Some e), LogError (prev @ [e])] = replicate (0 + 1) args"
    "callback_calls [FuncCall args (Some e), LogError (prev @ [e])] = (case cb of None \<Rightarrow> [] | Some c \<Rightarrow> replicate 0 args)"
    "func_errors [FuncCall args (Some e), LogError (prev @ [e])] = [e]"
    "length [e] = 0 + 1"
    by (simp_all split: option.split)
  ultimately show ?case by fastforce
next
  case (Suc n)
  obtain e s1 where f: "func args s = (Inl e, s1)" "ex e" using fail by blast
  have lt: "i < rc" and n: "n = nat (rc - (i + 1))" and le: "i + 1 \<le> rc" using Suc.prems by simp_all
  show ?case
  proof (cases cb)
    case None
    let ?pre = "[FuncCall args (Some e), LogInfo e (rc - i)]"
    from Suc.IH[OF n le, of "prev @ [e]" s1 "tr @ ?pre"]
    obtain e' s' evs where
      run: "retryable_loop func ex rc cb args (i + 1) (prev @ [e]) (s1, tr @ ?pre) = (Inl e', (s', (tr @ ?pre) @ evs))"
      and fc: "func_calls evs = replicate (n + 1) args"
      and cc: "callback_calls evs = (case cb of None \<Rightarrow> [] | Some c \<Rightarrow> replicate n args)"
      and fe: "length (func_errors evs) = n + 1" "last (func_errors evs) = e'"
      and lst: "evs \<noteq> []" "last evs = LogError ((prev @ [e]) @ func_errors evs)"
      by blast
    have "retryable_loop func ex rc cb args i prev (s, tr) = (Inl e', (s', tr @ (?pre @ evs)))"
      using f lt run None by (simp add: retryable_loop_retry_plain)
    moreover have "func_calls (?pre @ evs) = replicate (Suc n + 1) args"
      "callback_calls (?pre @ evs) = (case cb of None \<Rightarrow> [] | Some c \<Rightarrow> replicate (Suc n) args)"
      "length (func_errors (?pre @ evs)) = Suc n + 1" "last (func_errors (?pre @ evs)) = e'"
      "?pre @ evs \<noteq> []" "last (?pre @ evs) = LogError (prev @ func_errors (?pre @ evs))"
      using fc cc fe lst None by auto
    ultimately show ?thesis by blast
  next
    case (Some c)
    obtain s2 where c: "c args s1 = (Inr (), s2)" using cbok[OF Some] by blast
    let ?pre = "[FuncCall args (Some e), LogInfo e (rc - i), CallbackCall args None]"
    from Suc.IH[OF n le, of "prev @ [e]" s2 "tr @ ?pre"]
    obtain e' s' evs where
      run: "retryable_loop func ex rc cb args (i + 1) (prev @ [e]) (s2, tr @ ?pre) = (Inl e', (s', (tr @ ?pre) @ evs))"
      and fc: "func_calls evs = replicate (n + 1) args"
      and cc: "callback_calls evs = (case cb of None \<Rightarrow> [] | Some c \<Rightarrow> replicate n args)"
      and fe: "length (func_errors evs) = n + 1" "last (func_errors evs) = e'"
      and lst: "evs \<noteq> []" "last evs = LogError ((prev @ [e]) @ func_errors evs)"
      by blast
    have "retryable_loop func ex rc cb args i prev (s, tr) = (Inl e', (s', tr @ (?pre @ evs)))"
      using f lt c run Some by (simp add: retryable_loop_retry_callback)
    moreover have "func_calls (?pre @ evs) = replicate (Suc n + 1) args"
      "callback_calls (?pre @ evs) = (case cb of None \<Rightarrow> [] | Some c \<Rightarrow> replicate (Suc n) args)"
      "length (func_errors (?pre @ evs)) = Suc n + 1" "last (func_errors (?pre @ evs)) = e'"
      "?pre @ evs \<noteq> []" "last (?pre @ evs) = LogError (prev @ func_errors (?pre @ evs))"
      using fc cc fe lst Some by auto
    ultimately show ?thesis by blast
  qed
qed

text \<open>
  C1. Let the retry budget \<open>retry_count\<close> be non-negative, let \<open>func\<close> raise, at every
  invocation with the call arguments, an error that \<open>expected_exception\<close> matches, and let
  the callback, when there is one, return normally (the precondition the specification puts
  on callbacks). Then the wrapped call raises. In the journal of the run \<open>func\<close> is invoked
  exactly \<open>retry_count + 1\<close> times and the callback, when there is one, exactly
  \<open>retry_count\<close> times, each time with the original arguments. The error raised is the one
  of the last invocation of \<open>func\<close>, and the last record of the journal is the error log of
  the whole history of caught errors.
\<close>

theorem retryable_exhausts_budget:
  assumes "0 \<le> retry_count"
    and "\<forall>s. \<exists>e s'. func args s = (Inl e, s') \<and> expected_exception e"
    and "case callback of None \<Rightarrow> True | Some c \<Rightarrow> (\<forall>s. \<exists>s'. c args s = (Inr (), s'))"
  shows "\<exists>e s' tr.
      retryable_wrapper func expected_exception retry_count callback args (s, []) = (Inl e, (s', tr))
      \<and> func_calls tr = replicate (nat retry_count + 1) args
      \<and> callback_calls tr = (case callback of None \<Rightarrow> [] | Some c \<Rightarrow> replicate (nat retry_count) args)
      \<and> length (func_errors tr) = nat retry_count + 1
      \<and> e = last (func_errors tr)
      \<and> last tr = LogError (func_errors tr)"
proof -
  have cbok: "\<exists>s'. c args s = (Inr (), s')" if "callback = Some c" for c s
    using assms(3) that by simp
  from retryable_loop_always_failing[of func args expected_exception callback "nat retry_count" retry_count 0 "[]" s "[]"]
    assms(1,2) cbok
  obtain e s' evs where
    run: "retryable_loop func expected_exception retry_count callback args 0 [] (s, []) = (Inl e, (s', [] @ evs))"
    and fc: "func_calls evs = replicate (nat retry_count + 1) args"
    and cc: "callback_calls evs = (case callback of None \<Rightarrow> [] | Some c \<Rightarrow> replicate (nat retry_count) args)"
    and fe: "length (func_errors evs) = nat retry_count + 1" "last (func_errors evs) = e"
    and lst: "evs \<noteq> []" "last evs = LogError ([] @ func_errors evs)"
    by auto
  then show ?thesis by (simp add: retryable_wrapper_def)
qed

lemmas fixture_defs =
  mocks_at_def fresh_def raise_new_def bases_def class_of_def isinstance_def
  real_method_def raising_method_def callback_method_def raising_callback_def
  generator_function_def generator_next_def flaky_scripts_def broken_scripts_def
  empty_scripts_def flaky_then_broken_def flaky_then_empty_def

text \<open>The test doubles follow the class hierarchy: \<open>UnicodeError\<close> is a \<open>ValueError\<close>,
  \<open>NotImplementedError\<close> is not, and \<open>Exception\<close> covers \<open>StopIteration\<close> but not
  \<open>GeneratorExit\<close>.\<close>

lemma isinstance_examples:
  "isinstance [''ValueError''] (Error (''UnicodeError'', 0))"
  "\<not> isinstance [''ValueError''] (Error (''NotImplementedError'', 0))"
  "isinstance [''ValueError'', ''NotImplementedError''] (Error (''NotImplementedError'', 0))"
  "isinstance [''Exception''] StopIteration"
  "\<not> isinstance [''Exception''] GeneratorExit"
  "isinstance [''RuntimeError''] GeneratorRaisedStopIteration"
  by (simp_all add: fixture_defs)

lemma raising_method_run:
  "retryable_wrapper (raising_method ''ValueError'') (isinstance [''ValueError'']) 2
     (Some callback_method) (202, ''03'') (fresh, []) =
   (Inl (Error (''ValueError'', 2)),
    (mocks_at 3 2 [],
     [FuncCall (202, ''03'') (Some (Error (''ValueError'', 0))), LogInfo (Error (''ValueError'', 0)) 2,
      CallbackCall (202, ''03'') None,
      FuncCall (202, ''03'') (Some (Error (''ValueError'', 1))), LogInfo (Error (''ValueError'', 1)) 1,
      CallbackCall (202, ''03'') None,
      FuncCall (202, ''03'') (Some (Error (''ValueError'', 2))),
      LogError [Error (''ValueError'', 0), Error (''ValueError'', 1), Error (''ValueError'', 2)]]))"
proof -
  have "retryable_loop (raising_method ''ValueError'') (isinstance [''ValueError'']) 2
      (Some callback_method) (202, ''03'') 0 [] (fresh, []) =
    retryable_loop (raising_method ''ValueError'') (isinstance [''ValueError'']) 2
      (Some callback_method) (202, ''03'') 1 [Error (''ValueError'', 0)]
      (mocks_at 1 1 [],
       [FuncCall (202, ''03'') (Some (Error (''ValueError'', 0))), LogInfo (Error (''ValueError'', 0)) 2,
        CallbackCall (202, ''03'') None])"
    by (subst retryable_loop.simps)
      (simp add: call_func_def call_callback_def logger_def fixture_defs numeral_2_eq_2 numeral_3_eq_3)
  also have "\<dots> =
    retryable_loop (raising_method ''ValueError'') (isinstance [''ValueError'']) 2
      (Some callback_method) (202, ''03'') 2 [Error (''ValueError'', 0), Error (''ValueError'', 1)]
      (mocks_at 2 2 [],
       [FuncCall (202, ''03'') (Some (Error (''ValueError'', 0))), LogInfo (Error (''ValueError'', 0)) 2,
        CallbackCall (202, ''03'') None,
        FuncCall (202, ''03'') (Some (Error (''ValueError'', 1))), LogInfo (Error (''ValueError'', 1)) 1,
        CallbackCall (202, ''03'') None])"
    by (subst retryable_loop.simps)
      (simp add: call_func_def call_callback_def logger_def fixture_defs numeral_2_eq_2 numeral_3_eq_3)
  also have "\<dots> =
    (Inl (Error (''ValueError'', 2)),
     (mocks_at 3 2 [],
      [FuncCall (202, ''03'') (Some (Error (''ValueError'', 0))), LogInfo (Error (''ValueError'', 0)) 2,
       CallbackCall (202, ''03'') None,
       FuncCall (202, ''03'') (Some (Error (''ValueError'', 1))), LogInfo (Error (''ValueError'', 1)) 1,
       CallbackCall (202, ''03'') None,
       FuncCall (202, ''03'') (Some (Error (''ValueError'', 2))),
       LogError [Error (''ValueError'', 0), Error (''ValueError'', 1), Error (''ValueError'', 2)]]))"
    by (subst retryable_loop.simps)
      (simp add: call_func_def call_callback_def logger_def fixture_defs numeral_2_eq_2 numeral_3_eq_3)
  finally show ?thesis by (simp add: retryable_wrapper_def)
qed

theorem retryable_exhausts_budget_witness:
  "(0::int) \<le> 2
   \<and> (\<forall>s. \<exists>e s'. raising_method ''ValueError'' (202, ''03'') s = (Inl e, s')
          \<and> isinstance [''ValueError''] e)
   \<and> (case Some callback_method of None \<Rightarrow> True
       | Some c \<Rightarrow> (\<forall>s. \<exists>s'. c (202, ''03'') s = (Inr (), s')))
   \<and> (\<exists>e s' tr.
      retryable_wrapper (raising_method ''ValueError'') (isinstance [''ValueError'']) 2
         (Some callback_method) (202, ''03'') (fresh, []) = (Inl e, (s', tr))
      \<and> func_calls tr = replicate (nat 2 + 1) (202, ''03'')
      \<and> callback_calls tr =
          (case Some callback_method of None \<Rightarrow> [] | Some c \<Rightarrow> replicate (nat 2) (202, ''03''))
      \<and> length (func_errors tr) = nat 2 + 1
      \<and> e = last (func_errors tr)
      \<and> last tr = LogError (func_errors tr))
   \<and> retryable_wrapper (raising_method ''ValueError'') (isinstance [''ValueError'']) 2
         (Some callback_method) (202, ''03'') (fresh, []) =
       (Inl (Error (''ValueError'', 2)),
        (mocks_at 3 2 [],
         [FuncCall (202, ''03'') (Some (Error (''ValueError'', 0))), LogInfo (Error (''ValueError'', 0)) 2,
          CallbackCall (202, ''03'') None,
          FuncCall (202, ''03'') (Some (Error (''ValueError'', 1))), LogInfo (Error (''ValueError'', 1)) 1,
          CallbackCall (202, ''03'') None,
          FuncCall (202, ''03'') (Some (Error (''ValueError'', 2))),
          LogError [Error (''ValueError'', 0), Error (''ValueError'', 1), Error (''ValueError'', 2)]]))"
proof -
  have h1: "(0::int) \<le> 2" by simp
  have h2: "\<forall>s. \<exists>e s'. raising_method ''ValueError'' (202, ''03'') s = (Inl e, s')
          \<and> isinstance [''ValueError''] e"
    by (simp add: fixture_defs)
  have h3: "case Some callback_method of None \<Rightarrow> True
       | Some c \<Rightarrow> (\<forall>s. \<exists>s'. c (202, ''03'') s = (Inr (), s'))"
    by (simp add: fixture_defs)
  show ?thesis
    using h1 h2 h3
      retryable_exhausts_budget [where retry_count = 2 and func = "raising_method ''ValueError''"
        and args = "(202, ''03'')" and expected_exception = "isinstance [''ValueError'']"
        and callback = "Some callback_method" and s = fresh]
      raising_method_run
    by blast
qed

text \<open>
  C2. If the first invocation of \<open>func\<close> raises an error that \<open>expected_exception\<close> does not
  match, then for every retry budget and every callback the wrapped call raises that same
  error, and the journal of the run is the single invocation of \<open>func\<close>: no retry, no
  callback, no log record.
\<close>

theorem retryable_unexpected_propagates:
  assumes "func args s = (Inl e, s')" and "\<not> expected_exception e"
  shows "retryable_wrapper func expected_exception retry_count callback args (s, []) =
           (Inl e, (s', [FuncCall args (Some e)]))"
  using assms retryable_loop_unexpected [of func args s e s' expected_exception]
  by (simp add: retryable_wrapper_def)

theorem retryable_unexpected_propagates_witness:
  "real_method [Inl ''NotImplementedError'', Inr 42] (202, ''03'') fresh =
     (Inl (Error (''NotImplementedError'', 0)), fresh\<lparr>real_count := 1\<rparr>)
   \<and> \<not> isinstance [''ValueError''] (Error (''NotImplementedError'', 0))
   \<and> retryable_wrapper (real_method [Inl ''NotImplementedError'', Inr 42])
        (isinstance [''ValueError'']) 1 (Some callback_method) (202, ''03'') (fresh, []) =
      (Inl (Error (''NotImplementedError'', 0)),
       (fresh\<lparr>real_count := 1\<rparr>, [FuncCall (202, ''03'') (Some (Error (''NotImplementedError'', 0)))]))"
proof -
  have h1: "real_method [Inl ''NotImplementedError'', Inr 42] (202, ''03'') fresh =
     (Inl (Error (''NotImplementedError'', 0)), fresh\<lparr>real_count := 1\<rparr>)"
    by (simp add: fixture_defs)
  have h2: "\<not> isinstance [''ValueError''] (Error (''NotImplementedError'', 0))"
    by (simp add: fixture_defs)
  show ?thesis
    using h1 h2
      retryable_unexpected_propagates [where func = "real_method [Inl ''NotImplementedError'', Inr 42]"
        and args = "(202, ''03'')" and s = fresh and e = "Error (''NotImplementedError'', 0)"
        and s' = "fresh\<lparr>real_count := 1\<rparr>" and expected_exception = "isinstance [''ValueError'']"
        and retry_count = 1 and callback = "Some callback_method"]
    by simp
qed

text \<open>
  C3. Let the retry budget be at least 1, let the first invocation of \<open>func\<close> raise an error
  that \<open>expected_exception\<close> matches, let the callback, when there is one, return normally,
  and let the next invocation of \<open>func\<close> return \<open>v\<close>. Then the wrapped call returns \<open>v\<close>, and
  \<open>func\<close> is invoked exactly twice, both times with the original arguments.
\<close>

theorem retryable_second_attempt_succeeds:
  assumes "1 \<le> retry_count"
    and "func args s0 = (Inl e, s1)" and "expected_exception e"
    and "case callback of None \<Rightarrow> s2 = s1 | Some c \<Rightarrow> c args s1 = (Inr (), s2)"
    and "func args s2 = (Inr v, s3)"
  shows "retryable_wrapper func expected_exception retry_count callback args (s0, []) =
           (Inr v, (s3, FuncCall args (Some e) # LogInfo e retry_count
              # (case callback of None \<Rightarrow> [] | Some c \<Rightarrow> [CallbackCall args None])
              @ [FuncCall args None]))
         \<and> func_calls (FuncCall args (Some e) # LogInfo e retry_count
              # (case callback of None \<Rightarrow> [] | Some c \<Rightarrow> [CallbackCall args None])
              @ [FuncCall args None]) = [args, args]"
proof (cases callback)
  case None
  have "retryable_loop func expected_exception retry_count None args 0 [] (s0, []) =
        retryable_loop func expected_exception retry_count None args (0 + 1) ([] @ [e])
          (s1, [] @ [FuncCall args (Some e), LogInfo e (retry_count - 0)])"
    using assms(1-3) by (intro retryable_loop_retry_plain) simp_all
  also have "\<dots> = (Inr v, (s3, ([] @ [FuncCall args (Some e), LogInfo e (retry_count - 0)]) @ [FuncCall args None]))"
    using assms(4,5) None by (intro retryable_loop_returns) simp
  finally show ?thesis using None by (simp add: retryable_wrapper_def)
next
  case (Some c)
  have "retryable_loop func expected_exception retry_count (Some c) args 0 [] (s0, []) =
        retryable_loop func expected_exception retry_count (Some c) args (0 + 1) ([] @ [e])
          (s2, [] @ [FuncCall args (Some e), LogInfo e (retry_count - 0), CallbackCall args None])"
    using assms(1-4) Some by (intro retryable_loop_retry_callback) simp_all
  also have "\<dots> = (Inr v, (s3, ([] @ [FuncCall args (Some e), LogInfo e (retry_count - 0), CallbackCall args None]) @ [FuncCall args None]))"
    using assms(5) by (intro retryable_loop_returns) simp
  finally show ?thesis using Some by (simp add: retryable_wrapper_def)
qed

theorem retryable_second_attempt_succeeds_witness:
  "(1::int) \<le> 1
   \<and> real_method [Inl ''ValueError'', Inr 42] (202, ''03'') fresh =
       (Inl (Error (''ValueError'', 0)), fresh\<lparr>real_count := 1\<rparr>)
   \<and> isinstance [''ValueError''] (Error (''ValueError'', 0))
   \<and> (case Some callback_method of
         None \<Rightarrow> fresh\<lparr>real_count := 1, callback_count := 1\<rparr> = fresh\<lparr>real_count := 1\<rparr>
       | Some c \<Rightarrow> c (202, ''03'') (fresh\<lparr>real_count := 1\<rparr>) =
           (Inr (), fresh\<lparr>real_count := 1, callback_count := 1\<rparr>))
   \<and> real_method [Inl ''ValueError'', Inr 42] (202, ''03'') (fresh\<lparr>real_count := 1, callback_count := 1\<rparr>) =
       (Inr 42, fresh\<lparr>real_count := 2, callback_count := 1\<rparr>)
   \<and> retryable_wrapper (real_method [Inl ''ValueError'', Inr 42]) (isinstance [''ValueError''])
        1 (Some callback_method) (202, ''03'') (fresh, []) =
      (Inr 42, (fresh\<lparr>real_count := 2, callback_count := 1\<rparr>,
         [FuncCall (202, ''03'') (Some (Error (''ValueError'', 0))), LogInfo (Error (''ValueError'', 0)) 1,
          CallbackCall (202, ''03'') None, FuncCall (202, ''03'') None]))"
proof -
  have h1: "(1::int) \<le> 1" by simp
  have h2: "real_method [Inl ''ValueError'', Inr 42] (202, ''03'') fresh =
       (Inl (Error (''ValueError'', 0)), fresh\<lparr>real_count := 1\<rparr>)"
    by (simp add: fixture_defs)
  have h3: "isinstance [''ValueError''] (Error (''ValueError'', 0))"
    by (simp add: fixture_defs)
  have h4: "case Some callback_method of
         None \<Rightarrow> fresh\<lparr>real_count := 1, callback_count := 1\<rparr> = fresh\<lparr>real_count := 1\<rparr>
       | Some c \<Rightarrow> c (202, ''03'') (fresh\<lparr>real_count := 1\<rparr>) =
           (Inr (), fresh\<lparr>real_count := 1, callback_count := 1\<rparr>)"
    by (simp add: fixture_defs)
  have h5: "real_method [Inl ''ValueError'', Inr 42] (202, ''03'') (fresh\<lparr>real_count := 1, callback_count := 1\<rparr>) =
       (Inr 42, fresh\<lparr>real_count := 2, callback_count := 1\<rparr>)"
    by (simp add: fixture_defs)
  show ?thesis
    using h1 h2 h3 h4 h5
      retryable_second_attempt_succeeds [where retry_count = 1
        and func = "real_method [Inl ''ValueError'', Inr 42]" and args = "(202, ''03'')"
        and ?s0.0 = fresh and e = "Error (''ValueError'', 0)" and ?s1.0 = "fresh\<lparr>real_count := 1\<rparr>"
        and expected_exception = "isinstance [''ValueError'']" and callback = "Some callback_method"
        and ?s2.0 = "fresh\<lparr>real_count := 1, callback_count := 1\<rparr>" and v = 42
        and ?s3.0 = "fresh\<lparr>real_count := 2, callback_count := 1\<rparr>"]
    by simp
qed

section \<open>Properties of \<open>retryable_generator\<close>\<close>

lemma leave_generator_simps [simp]:
  "leave_generator StopIteration = GeneratorRaisedStopIteration"
  "leave_generator GeneratorExit = GeneratorExit"
  "leave_generator GeneratorRaisedStopIteration = GeneratorRaisedStopIteration"
  "leave_generator (Error x) = Error x"
  by (simp_all add: leave_generator_def)

lemma leave_generator_other: "e \<noteq> StopIteration \<Longrightarrow> leave_generator e = e"
  by (cases e) simp_all

lemma try_body_call_raises:
  "func args s = (Inl e, s1) \<Longrightarrow>
   try_body func nxt args (s, tr) = (Raised e, (s1, tr @ [FuncCall args (Some e)]))"
  by (simp add: try_body_def call_func_eq)

lemma try_body_yields:
  "func args s = (Inr it, s1) \<Longrightarrow> nxt it s1 = (Inr v, s2) \<Longrightarrow>
   try_body func nxt args (s, tr) = (Yielded it v, (s2, tr @ [FuncCall args None]))"
  by (simp add: try_body_def call_func_eq call_next_eq)

lemma try_body_stops:
  "func args s = (Inr it, s1) \<Longrightarrow> nxt it s1 = (Inl StopIteration, s2) \<Longrightarrow>
   try_body func nxt args (s, tr) = (Returned, (s2, tr @ [FuncCall args None]))"
  by (simp add: try_body_def call_func_eq call_next_eq)

lemma try_body_passes:
  "func args s = (Inr it, s1) \<Longrightarrow> nxt it s1 = (Inl GeneratorExit, s2) \<Longrightarrow>
   try_body func nxt args (s, tr) = (Passed it, (s2, tr @ [FuncCall args None]))"
  by (simp add: try_body_def call_func_eq call_next_eq)

lemma try_body_next_raises:
  "func args s = (Inr it, s1) \<Longrightarrow> nxt it s1 = (Inl e, s2) \<Longrightarrow>
   e \<noteq> StopIteration \<Longrightarrow> e \<noteq> GeneratorExit \<Longrightarrow>
   try_body func nxt args (s, tr) = (Raised e, (s2, tr @ [FuncCall args None]))"
  by (cases e) (simp_all add: try_body_def call_func_eq call_next_eq)

lemma generator_loop_yields:
  "try_body func nxt args w = (Yielded it v, w1) \<Longrightarrow>
   retryable_generator_loop func nxt ex rc cb args i prev w = ((Inr v, First_yielded it), w1)"
  by (subst retryable_generator_loop.simps) simp

lemma generator_loop_stops:
  "try_body func nxt args w = (Returned, w1) \<Longrightarrow>
   retryable_generator_loop func nxt ex rc cb args i prev w = ((Inl StopIteration, Finished), w1)"
  by (subst retryable_generator_loop.simps) simp

lemma generator_loop_passes:
  "try_body func nxt args w = (Passed it, w1) \<Longrightarrow>
   retryable_generator_loop func nxt ex rc cb args i prev w = yield_from nxt it w1"
  by (subst retryable_generator_loop.simps) simp

lemma generator_loop_unexpected:
  "try_body func nxt args w = (Raised e, w1) \<Longrightarrow> \<not> ex e \<Longrightarrow>
   retryable_generator_loop func nxt ex rc cb args i prev w =
     ((Inl (leave_generator e), Finished), w1)"
  by (subst retryable_generator_loop.simps) simp

lemma generator_loop_exhausted:
  "try_body func nxt args w = (Raised e, w1) \<Longrightarrow> ex e \<Longrightarrow> rc \<le> i \<Longrightarrow>
   retryable_generator_loop func nxt ex rc cb args i prev w =
     ((Inl (leave_generator e), Finished), logger (LogError (prev @ [e])) w1)"
  by (subst retryable_generator_loop.simps) simp

lemma generator_loop_retry_plain:
  "try_body func nxt args w = (Raised e, w1) \<Longrightarrow> ex e \<Longrightarrow> i < rc \<Longrightarrow>
   retryable_generator_loop func nxt ex rc None args i prev w =
     retryable_generator_loop func nxt ex rc None args (i + 1) (prev @ [e])
       (logger (LogInfo e (rc - i)) w1)"
  by (subst retryable_generator_loop.simps) simp

lemma generator_loop_retry_callback:
  "try_body func nxt args w = (Raised e, w1) \<Longrightarrow> ex e \<Longrightarrow> i < rc \<Longrightarrow>
   call_callback c args (logger (LogInfo e (rc - i)) w1) = (Inr u, w2) \<Longrightarrow>
   retryable_generator_loop func nxt ex rc (Some c) args i prev w =
     retryable_generator_loop func nxt ex rc (Some c) args (i + 1) (prev @ [e]) w2"
  by (subst retryable_generator_loop.simps) simp

lemma generator_loop_callback_raises:
  "try_body func nxt args w = (Raised e, w1) \<Longrightarrow> ex e \<Longrightarrow> i < rc \<Longrightarrow>
   call_callback c args (logger (LogInfo e (rc - i)) w1) = (Inl ce, w2) \<Longrightarrow>
   retryable_generator_loop func nxt ex rc (Some c) args i prev w =
     ((Inl (leave_generator ce), Finished), w2)"
  by (subst retryable_generator_loop.simps) simp

lemma yield_from_yields:
  "nxt it s = (Inr v, s') \<Longrightarrow> yield_from nxt it (s, tr) = ((Inr v, Delegating it), (s', tr))"
  by (simp add: yield_from_def call_next_eq)

lemma yield_from_raises:
  "nxt it s = (Inl e, s') \<Longrightarrow> yield_from nxt it (s, tr) = ((Inl e, Finished), (s', tr))"
  by (simp add: yield_from_def call_next_eq)

lemma generator_first_attempt_retried:
  assumes "1 \<le> rc"
    and "func args s0 = (Inr it1, s1)" and "nxt it1 s1 = (Inl e, s2)"
    and "e \<noteq> StopIteration" and "e \<noteq> GeneratorExit" and "ex e"
    and "case cb of None \<Rightarrow> s3 = s2 | Some c \<Rightarrow> c args s2 = (Inr (), s3)"
  shows "retryable_generator_loop func nxt ex rc cb args 0 [] (s0, []) =
         retryable_generator_loop func nxt ex rc cb args 1 [e]
           (s3, FuncCall args None # LogInfo e rc
                # (case cb of None \<Rightarrow> [] | Some c \<Rightarrow> [CallbackCall args None]))"
proof -
  have tb: "try_body func nxt args (s0, []) = (Raised e, (s2, [] @ [FuncCall args None]))"
    using assms(2-5) by (rule try_body_next_raises)
  show ?thesis
  proof (cases cb)
    case None
    have "retryable_generator_loop func nxt ex rc None args 0 [] (s0, []) =
          retryable_generator_loop func nxt ex rc None args (0 + 1) ([] @ [e])
            (logger (LogInfo e (rc - 0)) (s2, [] @ [FuncCall args None]))"
      using tb \<open>ex e\<close> \<open>1 \<le> rc\<close> by (intro generator_loop_retry_plain) simp_all
    then show ?thesis using None assms(7) by (simp add: logger_eq)
  next
    case (Some c)
    then have cc: "call_callback c args (logger (LogInfo e (rc - 0)) (s2, [] @ [FuncCall args None])) =
        (Inr (), (s3, [FuncCall args None, LogInfo e rc, CallbackCall args None]))"
      using assms(7) by (simp add: logger_eq call_callback_eq)
    have "retryable_generator_loop func nxt ex rc (Some c) args 0 [] (s0, []) =
          retryable_generator_loop func nxt ex rc (Some c) args (0 + 1) ([] @ [e])
            (s3, [FuncCall args None, LogInfo e rc, CallbackCall args None])"
      using tb \<open>ex e\<close> \<open>1 \<le> rc\<close> cc by (intro generator_loop_retry_callback) simp_all
    then show ?thesis using Some by simp
  qed
qed

text \<open>
  C4. Let the retry budget be at least 1. Let the first iterator returned by \<open>func\<close> raise,
  at its first pull, an error that \<open>expected_exception\<close> matches (an exception other than
  \<open>StopIteration\<close>, which is the end of the iteration, and \<open>GeneratorExit\<close>, which the inner
  \<open>try\<close> swallows), let the callback, when there is one, return normally, and let the
  iterator returned by the second invocation produce \<open>a\<close>, \<open>b\<close>, \<open>c\<close> and end. Then a
  consumer that pulls at least four times from the wrapped sequence gets exactly \<open>a\<close>, \<open>b\<close>,
  \<open>c\<close> and the end of the sequence, and \<open>func\<close> is invoked exactly twice. Moreover, once the
  first element has been yielded, whatever a pull from the iterator raises reaches the
  consumer as it is, whatever its kind, and the journal is unchanged: no further invocation
  of \<open>func\<close> and none of the callback.
\<close>

theorem retryable_generator_retries_first_pull:
  assumes "1 \<le> retry_count"
    and "func args s0 = (Inr it1, s1)" and "nxt it1 s1 = (Inl e, s2)"
    and "e \<noteq> StopIteration" and "e \<noteq> GeneratorExit" and "expected_exception e"
    and "case callback of None \<Rightarrow> s3 = s2 | Some c \<Rightarrow> c args s2 = (Inr (), s3)"
    and "func args s3 = (Inr it2, s4)"
    and "nxt it2 s4 = (Inr a, s5)" and "nxt it2 s5 = (Inr b, s6)"
    and "nxt it2 s6 = (Inr c, s7)" and "nxt it2 s7 = (Inl StopIteration, s8)"
    and "4 \<le> n"
  shows "consume (retryable_generator_wrapper func nxt expected_exception retry_count callback args)
           n Created (s0, []) =
         (([a, b, c], Exhausted),
          (s8, FuncCall args None # LogInfo e retry_count
               # (case callback of None \<Rightarrow> [] | Some c \<Rightarrow> [CallbackCall args None])
               @ [FuncCall args None]))
       \<and> func_calls (FuncCall args None # LogInfo e retry_count
               # (case callback of None \<Rightarrow> [] | Some c \<Rightarrow> [CallbackCall args None])
               @ [FuncCall args None]) = [args, args]
       \<and> (\<forall>g it s e' s' tr. (g = First_yielded it \<or> g = Delegating it) \<and> nxt it s = (Inl e', s') \<longrightarrow>
            retryable_generator_wrapper func nxt expected_exception retry_count callback args g (s, tr) =
              ((Inl e', Finished), (s', tr)))"
proof -
  let ?pre = "FuncCall args None # LogInfo e retry_count
                # (case callback of None \<Rightarrow> [] | Some c \<Rightarrow> [CallbackCall args None])"
  let ?G = "retryable_generator_wrapper func nxt expected_exception retry_count callback args"
  from \<open>4 \<le> n\<close> obtain m where "n = 4 + m"
    using le_Suc_ex by blast
  then have n: "n = Suc (Suc (Suc (Suc m)))" by simp
  have "try_body func nxt args (s3, ?pre) = (Yielded it2 a, (s5, ?pre @ [FuncCall args None]))"
    using assms(8,9) by (rule try_body_yields)
  then have "retryable_generator_loop func nxt expected_exception retry_count callback args 1 [e] (s3, ?pre)
      = ((Inr a, First_yielded it2), (s5, ?pre @ [FuncCall args None]))"
    by (rule generator_loop_yields)
  moreover have "retryable_generator_loop func nxt expected_exception retry_count callback args 0 [] (s0, []) =
      retryable_generator_loop func nxt expected_exception retry_count callback args 1 [e] (s3, ?pre)"
    using assms(1-7) by (rule generator_first_attempt_retried)
  ultimately have 1: "?G Created (s0, []) = ((Inr a, First_yielded it2), (s5, ?pre @ [FuncCall args None]))"
    by simp
  have 2: "?G (First_yielded it2) (s5, tr) = ((Inr b, Delegating it2), (s6, tr))" for tr
    using assms(10) by (simp add: yield_from_yields)
  have 3: "?G (Delegating it2) (s6, tr) = ((Inr c, Delegating it2), (s7, tr))" for tr
    using assms(11) by (simp add: yield_from_yields)
  have 4: "?G (Delegating it2) (s7, tr) = ((Inl StopIteration, Finished), (s8, tr))" for tr
    using assms(12) by (simp add: yield_from_raises)
  have run: "consume ?G n Created (s0, []) = (([a, b, c], Exhausted), (s8, ?pre @ [FuncCall args None]))"
    unfolding n by (simp add: 1 2 3 4 del: retryable_generator_wrapper.simps)
  have calls: "func_calls (?pre @ [FuncCall args None]) = [args, args]"
    by (simp split: option.split)
  have drain: "?G g (s, tr) = ((Inl e', Finished), (s', tr))"
    if "g = First_yielded it \<or> g = Delegating it" "nxt it s = (Inl e', s')" for g it s e' s' tr
    using that by (auto simp: yield_from_raises)
  have drain_all: "\<forall>g it s e' s' tr. (g = First_yielded it \<or> g = Delegating it) \<and> nxt it s = (Inl e', s') \<longrightarrow>
            ?G g (s, tr) = ((Inl e', Finished), (s', tr))"
    using drain by blast
  have "consume ?G n Created (s0, []) = (([a, b, c], Exhausted), (s8, ?pre @ [FuncCall args None]))
      \<and> func_calls (?pre @ [FuncCall args None]) = [args, args]"
    using run calls by (rule conjI)
  then show ?thesis using drain_all by (simp only: append_Cons)
qed

theorem retryable_generator_retries_first_pull_witness:
  "(1::int) \<le> 1
   \<and> generator_function (202, ''03'') fresh = (Inr 0, mocks_at 1 0 [0])
   \<and> generator_next flaky_scripts 0 (mocks_at 1 0 [0]) =
       (Inl (Error (''ValueError'', 0)), mocks_at 1 0 [1])
   \<and> Error (''ValueError'', 0) \<noteq> (StopIteration :: exception)
   \<and> Error (''ValueError'', 0) \<noteq> (GeneratorExit :: exception)
   \<and> isinstance [''ValueError''] (Error (''ValueError'', 0))
   \<and> (case Some callback_method of None \<Rightarrow> mocks_at 1 1 [1] = mocks_at 1 0 [1]
       | Some c \<Rightarrow> c (202, ''03'') (mocks_at 1 0 [1]) = (Inr (), mocks_at 1 1 [1]))
   \<and> generator_function (202, ''03'') (mocks_at 1 1 [1]) = (Inr 1, mocks_at 2 1 [1, 0])
   \<and> generator_next flaky_scripts 1 (mocks_at 2 1 [1, 0]) = (Inr ''a'', mocks_at 2 1 [1, 1])
   \<and> generator_next flaky_scripts 1 (mocks_at 2 1 [1, 1]) = (Inr ''b'', mocks_at 2 1 [1, 2])
   \<and> generator_next flaky_scripts 1 (mocks_at 2 1 [1, 2]) = (Inr ''c'', mocks_at 2 1 [1, 3])
   \<and> generator_next flaky_scripts 1 (mocks_at 2 1 [1, 3]) = (Inl StopIteration, mocks_at 2 1 [1, 4])
   \<and> (4::nat) \<le> 5
   \<and> consume (retryable_generator_wrapper generator_function (generator_next flaky_scripts)
         (isinstance [''ValueError'']) 1 (Some callback_method) (202, ''03'')) 5 Created (fresh, []) =
       (([''a'', ''b'', ''c''], Exhausted),
        (mocks_at 2 1 [1, 4],
         [FuncCall (202, ''03'') None, LogInfo (Error (''ValueError'', 0)) 1,
          CallbackCall (202, ''03'') None, FuncCall (202, ''03'') None]))
   \<and> retryable_generator_wrapper generator_function (generator_next flaky_scripts)
          (isinstance [''ValueError'']) 1 (Some callback_method) (202, ''03'') (Delegating 0)
          (mocks_at 1 0 [0], []) =
        ((Inl (Error (''ValueError'', 0)), Finished), (mocks_at 1 0 [1], []))"
proof -
  have h1: "(1::int) \<le> 1" by simp
  have h2: "generator_function (202, ''03'') fresh = (Inr 0, mocks_at 1 0 [0])"
    by (simp add: fixture_defs)
  have h3: "generator_next flaky_scripts 0 (mocks_at 1 0 [0]) =
       (Inl (Error (''ValueError'', 0)), mocks_at 1 0 [1])"
    by (simp add: fixture_defs)
  have h3a: "Error (''ValueError'', 0) \<noteq> (StopIteration :: exception)" by simp
  have h3b: "Error (''ValueError'', 0) \<noteq> (GeneratorExit :: exception)" by simp
  have h4: "isinstance [''ValueError''] (Error (''ValueError'', 0))"
    by (simp add: fixture_defs)
  have h5: "case Some callback_method of None \<Rightarrow> mocks_at 1 1 [1] = mocks_at 1 0 [1]
       | Some c \<Rightarrow> c (202, ''03'') (mocks_at 1 0 [1]) = (Inr (), mocks_at 1 1 [1])"
    by (simp add: fixture_defs)
  have h6: "generator_function (202, ''03'') (mocks_at 1 1 [1]) = (Inr 1, mocks_at 2 1 [1, 0])"
    by (simp add: fixture_defs)
  have h7: "generator_next flaky_scripts 1 (mocks_at 2 1 [1, 0]) = (Inr ''a'', mocks_at 2 1 [1, 1])"
    by (simp add: fixture_defs)
  have h8: "generator_next flaky_scripts 1 (mocks_at 2 1 [1, 1]) = (Inr ''b'', mocks_at 2 1 [1, 2])"
    by (simp add: fixture_defs)
  have h9: "generator_next flaky_scripts 1 (mocks_at 2 1 [1, 2]) = (Inr ''c'', mocks_at 2 1 [1, 3])"
    by (simp add: fixture_defs)
  have h10: "generator_next flaky_scripts 1 (mocks_at 2 1 [1, 3]) = (Inl StopIteration, mocks_at 2 1 [1, 4])"
    by (simp add: fixture_defs)
  have h11: "(4::nat) \<le> 5" by simp
  note inst = retryable_generator_retries_first_pull [where retry_count = 1 and func = generator_function
        and args = "(202, ''03'')" and ?s0.0 = fresh and ?it1.0 = 0 and ?s1.0 = "mocks_at 1 0 [0]"
        and nxt = "generator_next flaky_scripts" and e = "Error (''ValueError'', 0)"
        and ?s2.0 = "mocks_at 1 0 [1]" and expected_exception = "isinstance [''ValueError'']"
        and callback = "Some callback_method" and ?s3.0 = "mocks_at 1 1 [1]" and ?it2.0 = 1
        and ?s4.0 = "mocks_at 2 1 [1, 0]" and a = "''a''" and ?s5.0 = "mocks_at 2 1 [1, 1]"
        and b = "''b''" and ?s6.0 = "mocks_at 2 1 [1, 2]" and c = "''c''"
        and ?s7.0 = "mocks_at 2 1 [1, 3]" and ?s8.0 = "mocks_at 2 1 [1, 4]" and n = 5,
        OF h1 h2 h3 h3a h3b h4 h5 h6 h7 h8 h9 h10 h11]
  from inst have "retryable_generator_wrapper generator_function (generator_next flaky_scripts)
          (isinstance [''ValueError'']) 1 (Some callback_method) (202, ''03'') (Delegating 0)
          (mocks_at 1 0 [0], []) =
        ((Inl (Error (''ValueError'', 0)), Finished), (mocks_at 1 0 [1], []))"
    using h3 by blast
  then show ?thesis
    using h1 h2 h3 h4 h5 h6 h7 h8 h9 h10 h11 inst by simp
qed

lemma consume_fails:
  "step g w = ((Inl e, g'), w') \<Longrightarrow> e \<noteq> StopIteration \<Longrightarrow>
   consume step (Suc n) g w = (([], Failed e), w')"
  by (cases e) simp_all

lemma consume_ends:
  "step g w = ((Inl StopIteration, g'), w') \<Longrightarrow>
   consume step (Suc n) g w = (([], Exhausted), w')"
  by simp

lemma generator_loop_first_pull_unexpected:
  assumes "func args s = (Inr it, s1)" and "nxt it s1 = (Inl e, s2)"
    and "e \<noteq> StopIteration" and "e \<noteq> GeneratorExit" and "\<not> ex e"
  shows "retryable_generator_loop func nxt ex rc cb args i prev (s, tr) =
           ((Inl e, Finished), (s2, tr @ [FuncCall args None]))"
proof -
  have "try_body func nxt args (s, tr) = (Raised e, (s2, tr @ [FuncCall args None]))"
    using assms(1-4) by (rule try_body_next_raises)
  then have "retryable_generator_loop func nxt ex rc cb args i prev (s, tr) =
      ((Inl (leave_generator e), Finished), (s2, tr @ [FuncCall args None]))"
    using assms(5) by (rule generator_loop_unexpected)
  then show ?thesis using assms(3) by (simp add: leave_generator_other)
qed

lemma generator_loop_first_pull_stops:
  assumes "func args s = (Inr it, s1)" and "nxt it s1 = (Inl StopIteration, s2)"
  shows "retryable_generator_loop func nxt ex rc cb args i prev (s, tr) =
           ((Inl StopIteration, Finished), (s2, tr @ [FuncCall args None]))"
proof -
  have "try_body func nxt args (s, tr) = (Returned, (s2, tr @ [FuncCall args None]))"
    using assms by (rule try_body_stops)
  then show ?thesis by (rule generator_loop_stops)
qed

lemma generator_loop_first_pull_generator_exit:
  assumes "func args s = (Inr it, s1)" and "nxt it s1 = (Inl GeneratorExit, s2)"
  shows "retryable_generator_loop func nxt ex rc cb args i prev (s, tr) =
           yield_from nxt it (s2, tr @ [FuncCall args None])"
proof -
  have "try_body func nxt args (s, tr) = (Passed it, (s2, tr @ [FuncCall args None]))"
    using assms by (rule try_body_passes)
  then show ?thesis by (rule generator_loop_passes)
qed

text \<open>
  C9 as stated fails. With \<open>ValueError\<close> expected, a producer whose first pull raises
  \<open>NotImplementedError\<close> makes the wrapped sequence fail with that error; it does not end
  normally.
\<close>

theorem retryable_generator_swallows_unexpected_counterexample:
  "fst (consume (retryable_generator_wrapper generator_function (generator_next broken_scripts)
          (isinstance [''ValueError'']) 1 None (202, ''03'')) 1 Created (fresh, [])) =
     ([], Failed (Error (''NotImplementedError'', 0)))
   \<and> fst (consume (retryable_generator_wrapper generator_function (generator_next broken_scripts)
          (isinstance [''ValueError'']) 1 None (202, ''03'')) 1 Created (fresh, [])) \<noteq>
     ([], Exhausted)"
proof -
  have "generator_function (202, ''03'') fresh = (Inr 0, mocks_at 1 0 [0])"
    by (simp add: fixture_defs)
  moreover have "generator_next broken_scripts 0 (mocks_at 1 0 [0]) =
      (Inl (Error (''NotImplementedError'', 0)), mocks_at 1 0 [1])"
    by (simp add: fixture_defs)
  moreover have "Error (''NotImplementedError'', 0) \<noteq> (StopIteration :: exception)"
    "Error (''NotImplementedError'', 0) \<noteq> (GeneratorExit :: exception)"
    by simp_all
  moreover have "\<not> isinstance [''ValueError''] (Error (''NotImplementedError'', 0))"
    by (simp add: fixture_defs)
  ultimately have "retryable_generator_loop generator_function (generator_next broken_scripts)
          (isinstance [''ValueError'']) 1 None (202, ''03'') 0 [] (fresh, []) =
      ((Inl (Error (''NotImplementedError'', 0)), Finished),
       (mocks_at 1 0 [1], [] @ [FuncCall (202, ''03'') None]))"
    by (rule generator_loop_first_pull_unexpected)
  then show ?thesis by simp
qed

text \<open>
  C9, amended. At every attempt of the wrapped sequence, the first or one made after any
  number of retries (the loop at any counter \<open>i\<close>, history, store and journal): if the first
  pull from the iterator that \<open>func\<close> has just returned raises an error that
  \<open>expected_exception\<close> does not match (an exception other than \<open>StopIteration\<close> and
  \<open>GeneratorExit\<close>), the generator raises that same error and is finished, and nothing is
  invoked after this invocation of \<open>func\<close>; if the first pull raises \<open>StopIteration\<close>, the
  generator returns. For the consumer: when the run of the wrapped sequence arrives at such
  an attempt, it gets no element and the unmatched error in the first case, and no element
  and the normal end of the sequence in the second.
\<close>

theorem retryable_generator_first_pull_endings:
  "(func args s = (Inr it, s1) \<and> nxt it s1 = (Inl e, s2)
      \<and> e \<noteq> StopIteration \<and> e \<noteq> GeneratorExit \<and> \<not> expected_exception e \<longrightarrow>
    retryable_generator_loop func nxt expected_exception retry_count callback args i prev (s, tr) =
      ((Inl e, Finished), (s2, tr @ [FuncCall args None])))
   \<and> (func args s = (Inr it, s1) \<and> nxt it s1 = (Inl StopIteration, s2) \<longrightarrow>
    retryable_generator_loop func nxt expected_exception retry_count callback args i prev (s, tr) =
      ((Inl StopIteration, Finished), (s2, tr @ [FuncCall args None])))
   \<and> (retryable_generator_wrapper func nxt expected_exception retry_count callback args
        Created (s0, tr0) =
      retryable_generator_loop func nxt expected_exception retry_count callback args i prev (s, tr)
      \<and> func args s = (Inr it, s1) \<and> nxt it s1 = (Inl e, s2)
      \<and> e \<noteq> StopIteration \<and> e \<noteq> GeneratorExit \<and> \<not> expected_exception e \<longrightarrow>
    consume (retryable_generator_wrapper func nxt expected_exception retry_count callback args)
      (Suc n) Created (s0, tr0) = (([], Failed e), (s2, tr @ [FuncCall args None])))
   \<and> (retryable_generator_wrapper func nxt expected_exception retry_count callback args
        Created (s0, tr0) =
      retryable_generator_loop func nxt expected_exception retry_count callback args i prev (s, tr)
      \<and> func args s = (Inr it, s1) \<and> nxt it s1 = (Inl StopIteration, s2) \<longrightarrow>
    consume (retryable_generator_wrapper func nxt expected_exception retry_count callback args)
      (Suc n) Created (s0, tr0) = (([], Exhausted), (s2, tr @ [FuncCall args None])))"
proof (intro conjI impI)
  let ?G = "retryable_generator_wrapper func nxt expected_exception retry_count callback args"
  let ?L = "retryable_generator_loop func nxt expected_exception retry_count callback args i prev"
  {
    assume a: "func args s = (Inr it, s1) \<and> nxt it s1 = (Inl e, s2)
      \<and> e \<noteq> StopIteration \<and> e \<noteq> GeneratorExit \<and> \<not> expected_exception e"
    show "?L (s, tr) = ((Inl e, Finished), (s2, tr @ [FuncCall args None]))"
      using a generator_loop_first_pull_unexpected [where func = func and args = args and s = s
          and it = it and ?s1.0 = s1 and nxt = nxt and e = e and ?s2.0 = s2
          and ex = expected_exception]
      by blast
  }
  {
    assume a: "func args s = (Inr it, s1) \<and> nxt it s1 = (Inl StopIteration, s2)"
    show "?L (s, tr) = ((Inl StopIteration, Finished), (s2, tr @ [FuncCall args None]))"
      using a generator_loop_first_pull_stops [where func = func and args = args and s = s
          and it = it and ?s1.0 = s1 and nxt = nxt and ?s2.0 = s2]
      by blast
  }
  {
    assume a: "?G Created (s0, tr0) = ?L (s, tr)
      \<and> func args s = (Inr it, s1) \<and> nxt it s1 = (Inl e, s2)
      \<and> e \<noteq> StopIteration \<and> e \<noteq> GeneratorExit \<and> \<not> expected_exception e"
    then have "?L (s, tr) = ((Inl e, Finished), (s2, tr @ [FuncCall args None]))"
      using generator_loop_first_pull_unexpected [where func = func and args = args and s = s
          and it = it and ?s1.0 = s1 and nxt = nxt and e = e and ?s2.0 = s2
          and ex = expected_exception]
      by blast
    moreover have "?G Created (s0, tr0) = ?L (s, tr)" using a by (rule conjunct1)
    ultimately have "?G Created (s0, tr0) = ((Inl e, Finished), (s2, tr @ [FuncCall args None]))"
      by (simp only:)
    moreover have "e \<noteq> StopIteration" using a by blast
    ultimately show "consume ?G (Suc n) Created (s0, tr0) =
        (([], Failed e), (s2, tr @ [FuncCall args None]))"
      by (rule consume_fails)
  }
  {
    assume a: "?G Created (s0, tr0) = ?L (s, tr)
      \<and> func args s = (Inr it, s1) \<and> nxt it s1 = (Inl StopIteration, s2)"
    then have "?L (s, tr) = ((Inl StopIteration, Finished), (s2, tr @ [FuncCall args None]))"
      using generator_loop_first_pull_stops [where func = func and args = args and s = s
          and it = it and ?s1.0 = s1 and nxt = nxt and ?s2.0 = s2]
      by blast
    moreover have "?G Created (s0, tr0) = ?L (s, tr)" using a by (rule conjunct1)
    ultimately have "?G Created (s0, tr0) = ((Inl StopIteration, Finished), (s2, tr @ [FuncCall args None]))"
      by (simp only:)
    then show "consume ?G (Suc n) Created (s0, tr0) =
        (([], Exhausted), (s2, tr @ [FuncCall args None]))"
      by (rule consume_ends)
  }
qed


lemma retried_once:
  assumes "generator_next scripts 0 (mocks_at 1 0 [0]) = (Inl (Error (''ValueError'', 0)), mocks_at 1 0 [1])"
  shows "retryable_generator_wrapper generator_function (generator_next scripts)
        (isinstance [''ValueError'']) 1 None (202, ''03'') Created (fresh, []) =
      retryable_generator_loop generator_function (generator_next scripts)
        (isinstance [''ValueError'']) 1 None (202, ''03'') 1 [Error (''ValueError'', 0)]
        (mocks_at 1 0 [1], [FuncCall (202, ''03'') None, LogInfo (Error (''ValueError'', 0)) 1])"
proof -
  have "retryable_generator_loop generator_function (generator_next scripts)
        (isinstance [''ValueError'']) 1 None (202, ''03'') 0 [] (fresh, []) =
      retryable_generator_loop generator_function (generator_next scripts)
        (isinstance [''ValueError'']) 1 None (202, ''03'') 1 [Error (''ValueError'', 0)]
        (mocks_at 1 0 [1], FuncCall (202, ''03'') None # LogInfo (Error (''ValueError'', 0)) 1
           # (case None :: (call_args \<Rightarrow> mocks \<Rightarrow> (exception + unit) \<times> mocks) option of
                None \<Rightarrow> [] | Some c \<Rightarrow> [CallbackCall (202, ''03'') None]))"
  proof (rule generator_first_attempt_retried)
    show "(1::int) \<le> 1" by simp
    show "generator_function (202, ''03'') fresh = (Inr 0, mocks_at 1 0 [0])"
      by (simp add: fixture_defs)
    show "generator_next scripts 0 (mocks_at 1 0 [0]) =
        (Inl (Error (''ValueError'', 0)), mocks_at 1 0 [1])"
      by (rule assms)
    show "isinstance [''ValueError''] (Error (''ValueError'', 0))"
      by (simp add: fixture_defs)
    show "case None :: (call_args \<Rightarrow> mocks \<Rightarrow> (exception + unit) \<times> mocks) option of
        None \<Rightarrow> mocks_at 1 0 [1] = mocks_at 1 0 [1]
      | Some c \<Rightarrow> c (202, ''03'') (mocks_at 1 0 [1]) = (Inr (), mocks_at 1 0 [1])"
      by simp
  qed simp_all
  then show ?thesis by simp
qed

theorem retryable_generator_first_pull_endings_witness:
  "(generator_function (202, ''03'') (mocks_at 1 0 [1]) = (Inr 1, mocks_at 2 0 [1, 0]))
   \<and> (generator_next flaky_then_broken 1 (mocks_at 2 0 [1, 0]) =
       (Inl (Error (''NotImplementedError'', 1)), mocks_at 2 0 [1, 1]))
   \<and> (Error (''NotImplementedError'', 1) \<noteq> (StopIteration :: exception))
   \<and> (Error (''NotImplementedError'', 1) \<noteq> (GeneratorExit :: exception))
   \<and> (\<not> isinstance [''ValueError''] (Error (''NotImplementedError'', 1)))
   \<and> (generator_next flaky_then_empty 1 (mocks_at 2 0 [1, 0]) =
       (Inl StopIteration, mocks_at 2 0 [1, 1]))
   \<and> (retryable_generator_wrapper generator_function (generator_next flaky_then_broken)
        (isinstance [''ValueError'']) 1 None (202, ''03'') Created (fresh, []) =
      retryable_generator_loop generator_function (generator_next flaky_then_broken)
        (isinstance [''ValueError'']) 1 None (202, ''03'') 1 [Error (''ValueError'', 0)]
        (mocks_at 1 0 [1], [FuncCall (202, ''03'') None, LogInfo (Error (''ValueError'', 0)) 1]))
   \<and> (retryable_generator_wrapper generator_function (generator_next flaky_then_empty)
        (isinstance [''ValueError'']) 1 None (202, ''03'') Created (fresh, []) =
      retryable_generator_loop generator_function (generator_next flaky_then_empty)
        (isinstance [''ValueError'']) 1 None (202, ''03'') 1 [Error (''ValueError'', 0)]
        (mocks_at 1 0 [1], [FuncCall (202, ''03'') None, LogInfo (Error (''ValueError'', 0)) 1]))
   \<and> (retryable_generator_loop generator_function (generator_next flaky_then_broken)
        (isinstance [''ValueError'']) 1 None (202, ''03'') 1 [Error (''ValueError'', 0)]
        (mocks_at 1 0 [1], [FuncCall (202, ''03'') None, LogInfo (Error (''ValueError'', 0)) 1]) =
      ((Inl (Error (''NotImplementedError'', 1)), Finished), (mocks_at 2 0 [1, 1], [FuncCall (202, ''03'') None, LogInfo (Error (''ValueError'', 0)) 1] @ [FuncCall (202, ''03'') None])))
   \<and> (retryable_generator_loop generator_function (generator_next flaky_then_empty)
        (isinstance [''ValueError'']) 1 None (202, ''03'') 1 [Error (''ValueError'', 0)]
        (mocks_at 1 0 [1], [FuncCall (202, ''03'') None, LogInfo (Error (''ValueError'', 0)) 1]) =
      ((Inl StopIteration, Finished), (mocks_at 2 0 [1, 1], [FuncCall (202, ''03'') None, LogInfo (Error (''ValueError'', 0)) 1] @ [FuncCall (202, ''03'') None])))
   \<and> (consume (retryable_generator_wrapper generator_function (generator_next flaky_then_broken)
        (isinstance [''ValueError'']) 1 None (202, ''03''))
        (Suc 2) Created (fresh, []) =
      (([], Failed (Error (''NotImplementedError'', 1))), (mocks_at 2 0 [1, 1], [FuncCall (202, ''03'') None, LogInfo (Error (''ValueError'', 0)) 1] @ [FuncCall (202, ''03'') None])))
   \<and> (consume (retryable_generator_wrapper generator_function (generator_next flaky_then_empty)
        (isinstance [''ValueError'']) 1 None (202, ''03''))
        (Suc 2) Created (fresh, []) =
      (([], Exhausted), (mocks_at 2 0 [1, 1], [FuncCall (202, ''03'') None, LogInfo (Error (''ValueError'', 0)) 1] @ [FuncCall (202, ''03'') None])))"
proof -
  have f: "generator_function (202, ''03'') (mocks_at 1 0 [1]) = (Inr 1, mocks_at 2 0 [1, 0])"
    by (simp add: fixture_defs)
  have nb: "generator_next flaky_then_broken 1 (mocks_at 2 0 [1, 0]) =
       (Inl (Error (''NotImplementedError'', 1)), mocks_at 2 0 [1, 1])"
    by (simp add: fixture_defs)
  have ns: "Error (''NotImplementedError'', 1) \<noteq> (StopIteration :: exception)"
    by simp
  have ng: "Error (''NotImplementedError'', 1) \<noteq> (GeneratorExit :: exception)"
    by simp
  have nx: "\<not> isinstance [''ValueError''] (Error (''NotImplementedError'', 1))"
    by (simp add: fixture_defs)
  have ne: "generator_next flaky_then_empty 1 (mocks_at 2 0 [1, 0]) =
       (Inl StopIteration, mocks_at 2 0 [1, 1])"
    by (simp add: fixture_defs)
  have rb: "retryable_generator_wrapper generator_function (generator_next flaky_then_broken)
        (isinstance [''ValueError'']) 1 None (202, ''03'') Created (fresh, []) =
      retryable_generator_loop generator_function (generator_next flaky_then_broken)
        (isinstance [''ValueError'']) 1 None (202, ''03'') 1 [Error (''ValueError'', 0)]
        (mocks_at 1 0 [1], [FuncCall (202, ''03'') None, LogInfo (Error (''ValueError'', 0)) 1])"
    by (rule retried_once) (simp add: fixture_defs)
  have re: "retryable_generator_wrapper generator_function (generator_next flaky_then_empty)
        (isinstance [''ValueError'']) 1 None (202, ''03'') Created (fresh, []) =
      retryable_generator_loop generator_function (generator_next flaky_then_empty)
        (isinstance [''ValueError'']) 1 None (202, ''03'') 1 [Error (''ValueError'', 0)]
        (mocks_at 1 0 [1], [FuncCall (202, ''03'') None, LogInfo (Error (''ValueError'', 0)) 1])"
    by (rule retried_once) (simp add: fixture_defs)
  note broken = retryable_generator_first_pull_endings [where func = generator_function
      and args = "(202, ''03'')" and s = "mocks_at 1 0 [1]" and it = 1
      and ?s1.0 = "mocks_at 2 0 [1, 0]" and nxt = "generator_next flaky_then_broken"
      and ?s2.0 = "mocks_at 2 0 [1, 1]" and expected_exception = "isinstance [''ValueError'']"
      and retry_count = 1 and callback = None and i = 1 and prev = "[Error (''ValueError'', 0)]"
      and tr = "[FuncCall (202, ''03'') None, LogInfo (Error (''ValueError'', 0)) 1]"
      and ?s0.0 = fresh and ?tr0.0 = "[]" and n = 2 and e = "Error (''NotImplementedError'', 1)"]
  note empty = retryable_generator_first_pull_endings [where func = generator_function
      and args = "(202, ''03'')" and s = "mocks_at 1 0 [1]" and it = 1
      and ?s1.0 = "mocks_at 2 0 [1, 0]" and nxt = "generator_next flaky_then_empty"
      and ?s2.0 = "mocks_at 2 0 [1, 1]" and expected_exception = "isinstance [''ValueError'']"
      and retry_count = 1 and callback = None and i = 1 and prev = "[Error (''ValueError'', 0)]"
      and tr = "[FuncCall (202, ''03'') None, LogInfo (Error (''ValueError'', 0)) 1]"
      and ?s0.0 = fresh and ?tr0.0 = "[]" and n = 2]
  have ca: "retryable_generator_loop generator_function (generator_next flaky_then_broken)
        (isinstance [''ValueError'']) 1 None (202, ''03'') 1 [Error (''ValueError'', 0)]
        (mocks_at 1 0 [1], [FuncCall (202, ''03'') None, LogInfo (Error (''ValueError'', 0)) 1]) =
      ((Inl (Error (''NotImplementedError'', 1)), Finished), (mocks_at 2 0 [1, 1], [FuncCall (202, ''03'') None, LogInfo (Error (''ValueError'', 0)) 1] @ [FuncCall (202, ''03'') None]))"
    using broken f nb ns ng nx by blast
  have cb: "retryable_generator_loop generator_function (generator_next flaky_then_empty)
        (isinstance [''ValueError'']) 1 None (202, ''03'') 1 [Error (''ValueError'', 0)]
        (mocks_at 1 0 [1], [FuncCall (202, ''03'') None, LogInfo (Error (''ValueError'', 0)) 1]) =
      ((Inl StopIteration, Finished), (mocks_at 2 0 [1, 1], [FuncCall (202, ''03'') None, LogInfo (Error (''ValueError'', 0)) 1] @ [FuncCall (202, ''03'') None]))"
    using empty f ne by blast
  have cc: "consume (retryable_generator_wrapper generator_function (generator_next flaky_then_broken)
        (isinstance [''ValueError'']) 1 None (202, ''03''))
        (Suc 2) Created (fresh, []) =
      (([], Failed (Error (''NotImplementedError'', 1))), (mocks_at 2 0 [1, 1], [FuncCall (202, ''03'') None, LogInfo (Error (''ValueError'', 0)) 1] @ [FuncCall (202, ''03'') None]))"
    using broken rb f nb ns ng nx by blast
  have cd: "consume (retryable_generator_wrapper generator_function (generator_next flaky_then_empty)
        (isinstance [''ValueError'']) 1 None (202, ''03''))
        (Suc 2) Created (fresh, []) =
      (([], Exhausted), (mocks_at 2 0 [1, 1], [FuncCall (202, ''03'') None, LogInfo (Error (''ValueError'', 0)) 1] @ [FuncCall (202, ''03'') None]))"
    using empty re f ne by blast
  show ?thesis
    using f nb ns ng nx ne rb re ca cb cc cd by blast
qed

lemma consume_numeral:
  "consume step (numeral k) g w = consume step (Suc (pred_numeral k)) g w"
  by (simp add: numeral_eq_Suc)

lemma consume_step_yields:
  "step g w = ((Inr v, g'), w') \<Longrightarrow> consume step n g' w' = ((vs, r), w'') \<Longrightarrow>
   consume step (Suc n) g w = ((v # vs, r), w'')"
  by simp

lemma plain_wrapper_returns_generator:
  "retryable_wrapper generator_function (isinstance [''ValueError'']) 1 None (202, ''03'') (fresh, []) =
     (Inr 0, (mocks_at 1 0 [0], [FuncCall (202, ''03'') None]))"
  unfolding retryable_wrapper_def
  by (subst retryable_loop.simps) (simp add: call_func_def fixture_defs)

lemma unwrapped_generator_fails:
  "consume (iterator_next (generator_next flaky_scripts)) 4 0
     (mocks_at 1 0 [0], [FuncCall (202 :: int, ''03'') None]) =
   (([], Failed (Error (''ValueError'', 0))), (mocks_at 1 0 [1], [FuncCall (202, ''03'') None]))"
proof -
  have "iterator_next (generator_next flaky_scripts) 0
      (mocks_at 1 0 [0], [FuncCall (202 :: int, ''03'') None]) =
    ((Inl (Error (''ValueError'', 0)), 0), (mocks_at 1 0 [1], [FuncCall (202, ''03'') None]))"
    by (simp add: iterator_next_def call_next_def fixture_defs)
  moreover have "Error (''ValueError'', 0) \<noteq> (StopIteration :: exception)" by simp
  ultimately have "consume (iterator_next (generator_next flaky_scripts)) (Suc 3) 0
      (mocks_at 1 0 [0], [FuncCall (202 :: int, ''03'') None]) =
    (([], Failed (Error (''ValueError'', 0))), (mocks_at 1 0 [1], [FuncCall (202, ''03'') None]))"
    by (rule consume_fails)
  then show ?thesis by (simp only: consume_numeral pred_numeral_simps BitM.simps)
qed

lemma wrapped_generator_recovers:
  "consume (retryable_generator_wrapper generator_function (generator_next flaky_scripts)
      (isinstance [''ValueError'']) 1 None (202, ''03'')) 4 Created (fresh, []) =
   (([''a'', ''b'', ''c''], Exhausted),
    (mocks_at 2 0 [1, 4],
     [FuncCall (202, ''03'') None, LogInfo (Error (''ValueError'', 0)) 1, FuncCall (202, ''03'') None]))"
proof -
  let ?G = "retryable_generator_wrapper generator_function (generator_next flaky_scripts)
      (isinstance [''ValueError'']) 1 None (202, ''03'')"
  have "retryable_generator_loop generator_function (generator_next flaky_scripts)
      (isinstance [''ValueError'']) 1 None (202, ''03'') 0 [] (fresh, []) =
     retryable_generator_loop generator_function (generator_next flaky_scripts)
      (isinstance [''ValueError'']) 1 None (202, ''03'') 1 [Error (''ValueError'', 0)]
      (mocks_at 1 0 [1], [FuncCall (202, ''03'') None, LogInfo (Error (''ValueError'', 0)) 1])"
    by (subst retryable_generator_loop.simps)
      (simp add: try_body_def call_func_def call_next_def logger_def fixture_defs)
  also have "\<dots> = ((Inr ''a'', First_yielded 1),
      (mocks_at 2 0 [1, 1],
       [FuncCall (202, ''03'') None, LogInfo (Error (''ValueError'', 0)) 1, FuncCall (202, ''03'') None]))"
    by (subst retryable_generator_loop.simps)
      (simp add: try_body_def call_func_def call_next_def logger_def fixture_defs)
  finally have 1: "?G Created (fresh, []) = ((Inr ''a'', First_yielded 1),
      (mocks_at 2 0 [1, 1],
       [FuncCall (202, ''03'') None, LogInfo (Error (''ValueError'', 0)) 1, FuncCall (202, ''03'') None]))"
    by simp
  have 2: "?G (First_yielded 1) (mocks_at 2 0 [1, 1], tr) =
      ((Inr ''b'', Delegating 1), (mocks_at 2 0 [1, 2], tr))" for tr
    by (simp add: yield_from_def call_next_def fixture_defs)
  have 3: "?G (Delegating 1) (mocks_at 2 0 [1, 2], tr) =
      ((Inr ''c'', Delegating 1), (mocks_at 2 0 [1, 3], tr))" for tr
    by (simp add: yield_from_def call_next_def fixture_defs)
  have 4: "?G (Delegating 1) (mocks_at 2 0 [1, 3], tr) =
      ((Inl StopIteration, Finished), (mocks_at 2 0 [1, 4], tr))" for tr
    by (simp add: yield_from_def call_next_def fixture_defs)
  have "consume ?G (Suc 0) (Delegating 1) (mocks_at 2 0 [1, 3], tr) =
      (([], Exhausted), (mocks_at 2 0 [1, 4], tr))" for tr
    using 4 by (rule consume_ends)
  with 3 have "consume ?G (Suc (Suc 0)) (Delegating 1) (mocks_at 2 0 [1, 2], tr) =
      (([''c''], Exhausted), (mocks_at 2 0 [1, 4], tr))" for tr
    by (rule consume_step_yields)
  with 2 have "consume ?G (Suc (Suc (Suc 0))) (First_yielded 1) (mocks_at 2 0 [1, 1], tr) =
      (([''b'', ''c''], Exhausted), (mocks_at 2 0 [1, 4], tr))" for tr
    by (rule consume_step_yields)
  with 1 have "consume ?G (Suc (Suc (Suc (Suc 0)))) Created (fresh, []) =
      (([''a'', ''b'', ''c''], Exhausted),
       (mocks_at 2 0 [1, 4],
        [FuncCall (202, ''03'') None, LogInfo (Error (''ValueError'', 0)) 1,
         FuncCall (202, ''03'') None]))"
    by (rule consume_step_yields)
  moreover have "(4::nat) = Suc (Suc (Suc (Suc 0)))" by simp
  ultimately show ?thesis by (simp only:)
qed

text \<open>
  C5. Called without an operation, \<open>retryable_generator\<close> returns the same
  \<open>functools.partial\<close> object as \<open>retryable\<close> does: one that, given the operation, applies
  \<open>retryable\<close> and so wraps it as a plain retried call, whereas \<open>retryable_generator\<close> given
  the operation directly makes the sequence wrapper. The two differ for the consumer. With
  the generator function whose first generator raises \<open>ValueError\<close> at its first pull and
  whose second produces \<open>a\<close>, \<open>b\<close>, \<open>c\<close>, the plain wrapper returns the first generator after
  one invocation, and pulling from it fails with \<open>ValueError\<close>; the sequence wrapper invokes
  the function twice and yields \<open>a\<close>, \<open>b\<close>, \<open>c\<close>.
\<close>

theorem retryable_generator_configurator_is_plain:
  "retryable_generator None nxt expected_exception retry_count callback =
     retryable None expected_exception retry_count callback
   \<and> (\<exists>p. retryable_generator None nxt expected_exception retry_count callback = Partial p
          \<and> p func = Call_wrapper (retryable_wrapper func expected_exception retry_count callback))
   \<and> retryable_generator (Some func) nxt expected_exception retry_count callback =
       Generator_wrapper
         (retryable_generator_wrapper func nxt expected_exception retry_count callback)
   \<and> retryable_wrapper generator_function (isinstance [''ValueError'']) 1 None (202, ''03'')
         (fresh, []) =
       (Inr 0, (mocks_at 1 0 [0], [FuncCall (202, ''03'') None]))
   \<and> consume (iterator_next (generator_next flaky_scripts)) 4 0
         (mocks_at 1 0 [0], [FuncCall (202 :: int, ''03'') None]) =
       (([], Failed (Error (''ValueError'', 0))), (mocks_at 1 0 [1], [FuncCall (202, ''03'') None]))
   \<and> consume (retryable_generator_wrapper generator_function (generator_next flaky_scripts)
         (isinstance [''ValueError'']) 1 None (202, ''03'')) 4 Created (fresh, []) =
       (([''a'', ''b'', ''c''], Exhausted),
        (mocks_at 2 0 [1, 4],
         [FuncCall (202, ''03'') None, LogInfo (Error (''ValueError'', 0)) 1, FuncCall (202, ''03'') None]))"
proof (intro conjI)
  show "retryable_generator None nxt expected_exception retry_count callback =
     retryable None expected_exception retry_count callback"
    by (simp add: retryable_generator_def)
  show "\<exists>p. retryable_generator None nxt expected_exception retry_count callback = Partial p
          \<and> p func = Call_wrapper (retryable_wrapper func expected_exception retry_count callback)"
    by (simp add: retryable_generator_def)
  show "retryable_generator (Some func) nxt expected_exception retry_count callback =
       Generator_wrapper
         (retryable_generator_wrapper func nxt expected_exception retry_count callback)"
    by (simp add: retryable_generator_def)
qed (rule plain_wrapper_returns_generator unwrapped_generator_fails wrapped_generator_recovers)+

section \<open>Callbacks that raise\<close>

lemma aborted_or_quiet_prepend:
  "list_all (\<lambda>ev. \<not> callback_failed ev) pre \<Longrightarrow> aborted_or_quiet leave args err evs \<Longrightarrow>
   aborted_or_quiet leave args err (pre @ evs)"
  unfolding aborted_or_quiet_def
proof (erule disjE)
  assume "list_all (\<lambda>ev. \<not> callback_failed ev) pre" "list_all (\<lambda>ev. \<not> callback_failed ev) evs"
  then show "list_all (\<lambda>ev. \<not> callback_failed ev) (pre @ evs) \<or>
    (\<exists>pre' ce. pre @ evs = pre' @ [CallbackCall args (Some ce)] \<and>
        list_all (\<lambda>ev. \<not> callback_failed ev) pre' \<and> err = Some (leave ce))"
    by simp
next
  assume p: "list_all (\<lambda>ev. \<not> callback_failed ev) pre"
    and "\<exists>pre' ce. evs = pre' @ [CallbackCall args (Some ce)] \<and>
        list_all (\<lambda>ev. \<not> callback_failed ev) pre' \<and> err = Some (leave ce)"
  then obtain pre' ce where "evs = pre' @ [CallbackCall args (Some ce)]"
    "list_all (\<lambda>ev. \<not> callback_failed ev) pre'" "err = Some (leave ce)" by blast
  then have "pre @ evs = (pre @ pre') @ [CallbackCall args (Some ce)] \<and>
        list_all (\<lambda>ev. \<not> callback_failed ev) (pre @ pre') \<and> err = Some (leave ce)"
    using p by simp
  then show "list_all (\<lambda>ev. \<not> callback_failed ev) (pre @ evs) \<or>
    (\<exists>pre' ce. pre @ evs = pre' @ [CallbackCall args (Some ce)] \<and>
        list_all (\<lambda>ev. \<not> callback_failed ev) pre' \<and> err = Some (leave ce))"
    by blast
qed

lemma aborted_or_quiet_abort:
  "list_all (\<lambda>ev. \<not> callback_failed ev) pre \<Longrightarrow>
   aborted_or_quiet leave args (Some (leave ce)) (pre @ [CallbackCall args (Some ce)])"
  unfolding aborted_or_quiet_def by blast

lemma aborted_or_quiet_quiet:
  "list_all (\<lambda>ev. \<not> callback_failed ev) evs \<Longrightarrow> aborted_or_quiet leave args err evs"
  unfolding aborted_or_quiet_def by blast

lemma aborted_or_quiet_decompose:
  assumes "aborted_or_quiet leave args err evs" and "evs = pre @ CallbackCall a (Some ce) # post"
  shows "post = [] \<and> a = args \<and> err = Some (leave ce)"
  using assms(1) unfolding aborted_or_quiet_def
proof (elim disjE exE conjE)
  assume "list_all (\<lambda>ev. \<not> callback_failed ev) evs"
  then show ?thesis using assms(2) by simp
next
  fix pre' ce'
  assume e: "evs = pre' @ [CallbackCall args (Some ce')]"
    and q: "list_all (\<lambda>ev. \<not> callback_failed ev) pre'" and err: "err = Some (leave ce')"
  show ?thesis
  proof (cases post rule: rev_cases)
    case Nil
    then show ?thesis using e assms(2) err by simp
  next
    case (snoc post' x)
    then have "pre' = pre @ CallbackCall a (Some ce) # post'"
      using e assms(2) by simp
    then show ?thesis using q by simp
  qed
qed

lemma retryable_loop_journal:
  "n = nat (rc - i) \<Longrightarrow> retryable_loop func ex rc cb args i prev (s, tr) = (r, (s', tr')) \<Longrightarrow>
   \<exists>evs. tr' = tr @ evs \<and> aborted_or_quiet (\<lambda>e. e) args (raised r) evs"
proof (induction n arbitrary: i prev s tr)
  case 0
  then have le: "rc \<le> i" by simp
  obtain r1 s1 where f: "func args s = (r1, s1)" by (cases "func args s")
  show ?case
  proof (cases r1)
    case (Inr v)
    then have "tr' = tr @ [FuncCall args None]"
      using f 0(2) by (simp add: retryable_loop_returns)
    then show ?thesis by (auto simp: aborted_or_quiet_def)
  next
    case (Inl e)
    then have "tr' = tr @ [FuncCall args (Some e)] \<or> tr' = tr @ [FuncCall args (Some e), LogError (prev @ [e])]"
      using f 0(2) le by (cases "ex e") (simp_all add: retryable_loop_unexpected retryable_loop_exhausted)
    then show ?thesis by (auto simp: aborted_or_quiet_def)
  qed
next
  case (Suc n)
  then have lt: "i < rc" and n: "n = nat (rc - (i + 1))" by simp_all
  obtain r1 s1 where f: "func args s = (r1, s1)" by (cases "func args s")
  show ?case
  proof (cases r1)
    case (Inr v)
    then have "tr' = tr @ [FuncCall args None]"
      using f Suc.prems(2) by (simp add: retryable_loop_returns)
    then show ?thesis by (auto simp: aborted_or_quiet_def)
  next
    case (Inl e)
    show ?thesis
    proof (cases "ex e")
      case False
      then have "tr' = tr @ [FuncCall args (Some e)]"
        using f Inl Suc.prems(2) by (simp add: retryable_loop_unexpected)
      then show ?thesis by (auto simp: aborted_or_quiet_def)
    next
      case True
      show ?thesis
      proof (cases cb)
        case None
        let ?pre = "[FuncCall args (Some e), LogInfo e (rc - i)]"
        have "retryable_loop func ex rc cb args (i + 1) (prev @ [e]) (s1, tr @ ?pre) = (r, (s', tr'))"
          using f Inl True lt None Suc.prems(2) by (simp add: retryable_loop_retry_plain)
        from Suc.IH[OF n this] obtain evs where "tr' = (tr @ ?pre) @ evs"
          "aborted_or_quiet (\<lambda>e. e) args (raised r) evs" by blast
        then have "tr' = tr @ (?pre @ evs) \<and> aborted_or_quiet (\<lambda>e. e) args (raised r) (?pre @ evs)"
          by (simp add: aborted_or_quiet_prepend del: append_Cons)
        then show ?thesis by blast
      next
        case (Some c)
        obtain r2 s2 where c: "c args s1 = (r2, s2)" by (cases "c args s1")
        show ?thesis
        proof (cases r2)
          case (Inl ce)
          let ?pre = "[FuncCall args (Some e), LogInfo e (rc - i)]"
          have "retryable_loop func ex rc cb args i prev (s, tr) =
            (Inl ce, (s2, tr @ [FuncCall args (Some e), LogInfo e (rc - i), CallbackCall args (Some ce)]))"
            using f \<open>r1 = Inl e\<close> True lt Some c Inl by (simp add: retryable_loop_callback_raises)
          then have "tr' = tr @ (?pre @ [CallbackCall args (Some ce)])" "r = Inl ce"
            using Suc.prems(2) by simp_all
          moreover have "aborted_or_quiet (\<lambda>e. e) args (Some ce) (?pre @ [CallbackCall args (Some ce)])"
            using aborted_or_quiet_abort [of ?pre "\<lambda>e. e" args ce] by simp
          ultimately show ?thesis by auto
        next
          case (Inr u)
          let ?pre = "[FuncCall args (Some e), LogInfo e (rc - i), CallbackCall args None]"
          have "retryable_loop func ex rc cb args (i + 1) (prev @ [e]) (s2, tr @ ?pre) = (r, (s', tr'))"
            using f \<open>r1 = Inl e\<close> True lt Some c Inr Suc.prems(2)
            by (simp add: retryable_loop_retry_callback)
          from Suc.IH[OF n this] obtain evs where "tr' = (tr @ ?pre) @ evs"
            "aborted_or_quiet (\<lambda>e. e) args (raised r) evs" by blast
          then have "tr' = tr @ (?pre @ evs) \<and> aborted_or_quiet (\<lambda>e. e) args (raised r) (?pre @ evs)"
            by (simp add: aborted_or_quiet_prepend del: append_Cons)
          then show ?thesis by blast
        qed
      qed
    qed
  qed
qed

lemma yield_from_journal:
  assumes "yield_from nxt it (s, tr) = ((p, g), (s', tr'))"
  shows "tr' = tr \<and> g \<noteq> Created"
proof -
  obtain q s2 where n: "nxt it s = (q, s2)" by (cases "nxt it s")
  show ?thesis
    using assms n by (cases q) (auto simp: yield_from_def call_next_eq)
qed

lemma try_body_journal:
  assumes "try_body func nxt args (s, tr) = (t, (s1, tr1))"
  shows "\<exists>r. tr1 = tr @ [FuncCall args r]"
proof -
  obtain r0 s0 where f: "func args s = (r0, s0)" by (cases "func args s")
  show ?thesis
  proof (cases r0)
    case (Inl e)
    then show ?thesis using assms f by (auto simp: try_body_call_raises)
  next
    case (Inr it)
    obtain q s2 where n: "nxt it s0 = (q, s2)" by (cases "nxt it s0")
    show ?thesis
    proof (cases q)
      case (Inr v)
      then show ?thesis using assms f \<open>r0 = Inr it\<close> n by (auto simp: try_body_yields)
    next
      case (Inl e)
      then show ?thesis using assms f \<open>r0 = Inr it\<close> n
        by (cases e) (auto simp: try_body_stops try_body_passes try_body_next_raises)
    qed
  qed
qed

lemma generator_loop_leaves_quietly:
  assumes "try_body func nxt args (s, tr) = (t, (s1, tr1))"
    and "tr1 = tr @ [FuncCall args r]"
    and "retryable_generator_loop func nxt ex rc cb args i prev (s, tr) = ((p, g), (s', tr'))"
    and "case t of Raised e \<Rightarrow> \<not> ex e \<or> rc \<le> i | Returned \<Rightarrow> True | Passed it \<Rightarrow> True
           | Yielded it v \<Rightarrow> True"
  shows "(tr' = tr1 \<or> (\<exists>h. tr' = tr1 @ [LogError h])) \<and> g \<noteq> Created"
proof (cases t)
  case (Raised e)
  then show ?thesis using assms(1,3,4)
    by (cases "ex e") (auto simp: generator_loop_unexpected generator_loop_exhausted logger_eq)
next
  case Returned
  then show ?thesis using assms(1,3) by (auto simp: generator_loop_stops)
next
  case (Passed it)
  then have "yield_from nxt it (s1, tr1) = ((p, g), (s', tr'))"
    using assms(1,3) by (simp add: generator_loop_passes)
  from yield_from_journal[OF this] show ?thesis by simp
next
  case (Yielded it v)
  then show ?thesis using assms(1,3) by (auto simp: generator_loop_yields)
qed

lemma generator_loop_journal:
  "n = nat (rc - i) \<Longrightarrow>
   retryable_generator_loop func nxt ex rc cb args i prev (s, tr) = ((p, g), (s', tr')) \<Longrightarrow>
   \<exists>evs. tr' = tr @ evs \<and> aborted_or_quiet leave_generator args (raised p) evs \<and> g \<noteq> Created"
proof (induction n arbitrary: i prev s tr)
  case 0
  then have le: "rc \<le> i" by simp
  obtain t s1 tr1 where tb: "try_body func nxt args (s, tr) = (t, (s1, tr1))"
    by (metis surj_pair)
  from try_body_journal[OF tb] obtain r where tr1: "tr1 = tr @ [FuncCall args r]" ..
  have "case t of Raised e \<Rightarrow> \<not> ex e \<or> rc \<le> i | Returned \<Rightarrow> True | Passed it \<Rightarrow> True
           | Yielded it v \<Rightarrow> True"
    using le by (cases t) simp_all
  from generator_loop_leaves_quietly[OF tb tr1 0(2) this]
  show ?case using tr1 by (auto simp: aborted_or_quiet_def)
next
  case (Suc n)
  then have lt: "i < rc" and n: "n = nat (rc - (i + 1))" by simp_all
  obtain t s1 tr1 where tb: "try_body func nxt args (s, tr) = (t, (s1, tr1))"
    by (metis surj_pair)
  from try_body_journal[OF tb] obtain r where tr1: "tr1 = tr @ [FuncCall args r]" ..
  show ?case
  proof (cases "case t of Raised e \<Rightarrow> \<not> ex e \<or> rc \<le> i | Returned \<Rightarrow> True
      | Passed it \<Rightarrow> True | Yielded it v \<Rightarrow> True")
    case True
    from generator_loop_leaves_quietly[OF tb tr1 Suc.prems(2) this]
    show ?thesis using tr1 by (auto simp: aborted_or_quiet_def)
  next
    case False
    then obtain e where t: "t = Raised e" and ex: "ex e" by (cases t) auto
    show ?thesis
    proof (cases cb)
      case None
      let ?pre = "[FuncCall args r, LogInfo e (rc - i)]"
      have "retryable_generator_loop func nxt ex rc cb args (i + 1) (prev @ [e]) (s1, tr @ ?pre) =
          ((p, g), (s', tr'))"
        using tb t ex lt None Suc.prems(2) tr1
        by (simp add: generator_loop_retry_plain logger_eq)
      from Suc.IH[OF n this] obtain evs where "tr' = (tr @ ?pre) @ evs"
        "aborted_or_quiet leave_generator args (raised p) evs" "g \<noteq> Created" by blast
      then have "tr' = tr @ (?pre @ evs)
          \<and> aborted_or_quiet leave_generator args (raised p) (?pre @ evs) \<and> g \<noteq> Created"
        by (simp add: aborted_or_quiet_prepend del: append_Cons)
      then show ?thesis by blast
    next
      case (Some c)
      obtain r2 s2 where c: "c args s1 = (r2, s2)" by (cases "c args s1")
      then have cc: "call_callback c args (logger (LogInfo e (rc - i)) (s1, tr1)) =
          (r2, (s2, tr @ [FuncCall args r, LogInfo e (rc - i), CallbackCall args (raised r2)]))"
        using tr1 by (simp add: logger_eq call_callback_eq)
      show ?thesis
      proof (cases r2)
        case (Inl ce)
        let ?pre = "[FuncCall args r, LogInfo e (rc - i)]"
        have "retryable_generator_loop func nxt ex rc cb args i prev (s, tr) =
          ((Inl (leave_generator ce), Finished),
           (s2, tr @ [FuncCall args r, LogInfo e (rc - i), CallbackCall args (Some ce)]))"
          using tb t ex lt Some cc Inl by (simp add: generator_loop_callback_raises)
        then have "tr' = tr @ (?pre @ [CallbackCall args (Some ce)])"
          "p = Inl (leave_generator ce)" "g = Finished"
          using Suc.prems(2) by simp_all
        moreover have "aborted_or_quiet leave_generator args (Some (leave_generator ce))
            (?pre @ [CallbackCall args (Some ce)])"
          by (rule aborted_or_quiet_abort) simp
        ultimately show ?thesis by auto
      next
        case (Inr u)
        let ?pre = "[FuncCall args r, LogInfo e (rc - i), CallbackCall args None]"
        have "retryable_generator_loop func nxt ex rc cb args (i + 1) (prev @ [e]) (s2, tr @ ?pre) =
            ((p, g), (s', tr'))"
          using tb t ex lt Some cc Inr Suc.prems(2)
          by (simp add: generator_loop_retry_callback)
        from Suc.IH[OF n this] obtain evs where "tr' = (tr @ ?pre) @ evs"
          "aborted_or_quiet leave_generator args (raised p) evs" "g \<noteq> Created" by blast
        then have "tr' = tr @ (?pre @ evs)
            \<and> aborted_or_quiet leave_generator args (raised p) (?pre @ evs) \<and> g \<noteq> Created"
          by (simp add: aborted_or_quiet_prepend del: append_Cons)
        then show ?thesis by blast
      qed
    qed
  qed
qed

lemma generator_wrapper_draining_journal:
  assumes "g \<noteq> Created"
    and "retryable_generator_wrapper func nxt ex rc cb args g (s, tr) = ((p, g'), (s', tr'))"
  shows "tr' = tr \<and> g' \<noteq> Created"
proof (cases g)
  case Created
  then show ?thesis using assms(1) by simp
next
  case (First_yielded it)
  then show ?thesis using assms(2) yield_from_journal[of nxt it s tr p g' s' tr'] by simp
next
  case (Delegating it)
  then show ?thesis using assms(2) yield_from_journal[of nxt it s tr p g' s' tr'] by simp
next
  case Finished
  then show ?thesis using assms(2) by auto
qed

lemma consume_result:
  assumes "step g w = ((p, g1), w1)"
  shows "consume step (Suc n) g w =
    (case p of
       Inr v \<Rightarrow> (case consume step n g1 w1 of ((vs, r), w2) \<Rightarrow> ((v # vs, r), w2))
     | Inl e \<Rightarrow> (([], if e = StopIteration then Exhausted else Failed e), w1))"
proof (cases p)
  case (Inl e)
  then show ?thesis using assms by (cases e) simp_all
next
  case (Inr v)
  then show ?thesis using assms by simp
qed

lemma consume_draining_journal:
  "g \<noteq> Created \<Longrightarrow>
   consume (retryable_generator_wrapper func nxt ex rc cb args) n g (s, tr) = (res, (s', tr')) \<Longrightarrow>
   tr' = tr"
proof (induction n arbitrary: g s tr res s' tr')
  case 0
  then show ?case by simp
next
  case (Suc n)
  obtain p g1 s1 tr1 where
    step: "retryable_generator_wrapper func nxt ex rc cb args g (s, tr) = ((p, g1), (s1, tr1))"
    by (metis surj_pair)
  then have j: "tr1 = tr" "g1 \<noteq> Created"
    using generator_wrapper_draining_journal[OF Suc.prems(1) step] by simp_all
  note cr = consume_result [where step = "retryable_generator_wrapper func nxt ex rc cb args"
      and g = g and w = "(s, tr)" and p = p and ?g1.0 = g1 and ?w1.0 = "(s1, tr1)" and n = n,
      OF step]
  show ?case
  proof (cases p)
    case (Inr v)
    obtain res2 s2 tr2 where
      rest: "consume (retryable_generator_wrapper func nxt ex rc cb args) n g1 (s1, tr1) = (res2, (s2, tr2))"
      by (metis surj_pair)
    then have "tr2 = tr1" using Suc.IH[OF j(2) rest] by simp
    moreover have "tr' = tr2"
      using Suc.prems(2) Inr rest unfolding cr
      by (simp split: prod.splits)
    ultimately show ?thesis using j by simp
  next
    case (Inl e)
    then show ?thesis using Suc.prems(2) j unfolding cr by simp
  qed
qed

lemma leave_generator_not_stop: "leave_generator e \<noteq> StopIteration"
  by (cases e) simp_all

lemma retryable_wrapper_callback_error:
  assumes "retryable_wrapper func ex rc cb args (s, []) = (r, (s', tr))"
    and "tr = pre @ CallbackCall a (Some ce) # post"
  shows "post = [] \<and> a = args \<and> r = Inl ce"
proof -
  have "retryable_loop func ex rc cb args 0 [] (s, []) = (r, (s', tr))"
    using assms(1) by (simp add: retryable_wrapper_def)
  from retryable_loop_journal[OF refl this]
  have "aborted_or_quiet (\<lambda>e. e) args (raised r) tr" by simp
  from aborted_or_quiet_decompose[OF this assms(2)]
  show ?thesis by (cases r) simp_all
qed

lemma retryable_generator_callback_error:
  assumes "consume (retryable_generator_wrapper func nxt ex rc cb args) n Created (s, []) =
      ((vs, ending), (s', tr))"
    and "tr = pre @ CallbackCall a (Some ce) # post"
  shows "post = [] \<and> a = args \<and> vs = [] \<and> ending = Failed (leave_generator ce)"
proof (cases n)
  case 0
  then show ?thesis using assms by simp
next
  case (Suc m)
  let ?G = "retryable_generator_wrapper func nxt ex rc cb args"
  obtain p g s1 tr1 where step: "?G Created (s, []) = ((p, g), (s1, tr1))"
    by (metis surj_pair)
  then have "retryable_generator_loop func nxt ex rc cb args 0 [] (s, []) = ((p, g), (s1, tr1))"
    by simp
  from generator_loop_journal[OF refl this]
  have q: "aborted_or_quiet leave_generator args (raised p) tr1" and g: "g \<noteq> Created"
    by simp_all
  note cr = consume_result [where step = ?G and g = Created and w = "(s, [])" and p = p
      and ?g1.0 = g and ?w1.0 = "(s1, tr1)" and n = m, OF step]
  have run: "(case p of
       Inr v \<Rightarrow> (case consume ?G m g (s1, tr1) of ((vs, r), w2) \<Rightarrow> ((v # vs, r), w2))
     | Inl e \<Rightarrow> (([], if e = StopIteration then Exhausted else Failed e), (s1, tr1))) =
     ((vs, ending), (s', tr))"
    using assms(1) Suc cr by simp
  show ?thesis
  proof (cases p)
    case (Inr v)
    obtain res2 s2 tr2 where rest: "consume ?G m g (s1, tr1) = (res2, (s2, tr2))"
      by (metis surj_pair)
    then have "tr2 = tr1" using consume_draining_journal[OF g rest] by simp
    moreover have "tr = tr2"
      using run Inr rest by (simp split: prod.splits)
    ultimately have "aborted_or_quiet leave_generator args (raised p) tr" using q by simp
    from aborted_or_quiet_decompose[OF this assms(2)] show ?thesis
      using Inr by simp
  next
    case (Inl e)
    then have r: "tr = tr1" "vs = []" "ending = (if e = StopIteration then Exhausted else Failed e)"
      using run by simp_all
    then have "aborted_or_quiet leave_generator args (raised p) tr" using q by simp
    from aborted_or_quiet_decompose[OF this assms(2)]
    have "post = []" "a = args" "e = leave_generator ce" using Inl by simp_all
    then show ?thesis using r leave_generator_not_stop[of ce] by simp
  qed
qed

lemma raising_callback_run:
  "retryable_wrapper (raising_method ''ValueError'') (isinstance [''ValueError'']) 5
     (Some (raising_callback cls)) (202, ''03'') (fresh, []) =
   (Inl (raise_new cls 100),
    (mocks_at 1 1 [],
     [FuncCall (202, ''03'') (Some (Error (''ValueError'', 0))), LogInfo (Error (''ValueError'', 0)) 5]
       @ CallbackCall (202, ''03'') (Some (raise_new cls 100)) # []))"
  unfolding retryable_wrapper_def
  by (subst retryable_loop.simps)
    (simp add: call_func_def call_callback_def logger_def mocks_at_def fresh_def
      raising_method_def raising_callback_def isinstance_def bases_def class_of_def
      raise_new_def [of "''ValueError''"])

lemma raising_callback_generator_run:
  "consume (retryable_generator_wrapper generator_function (generator_next flaky_scripts)
      (isinstance [''ValueError'']) 5 (Some (raising_callback cls)) (202, ''03''))
      (Suc 2) Created (fresh, []) =
   (([], Failed (leave_generator (raise_new cls 100))),
    (mocks_at 1 1 [1],
     [FuncCall (202, ''03'') None, LogInfo (Error (''ValueError'', 0)) 5]
       @ CallbackCall (202, ''03'') (Some (raise_new cls 100)) # []))"
proof -
  have "retryable_generator_wrapper generator_function (generator_next flaky_scripts)
      (isinstance [''ValueError'']) 5 (Some (raising_callback cls)) (202, ''03'') Created
      (fresh, []) =
    ((Inl (leave_generator (raise_new cls 100)), Finished),
     (mocks_at 1 1 [1],
      [FuncCall (202, ''03'') None, LogInfo (Error (''ValueError'', 0)) 5]
       @ CallbackCall (202, ''03'') (Some (raise_new cls 100)) # []))"
    unfolding retryable_generator_wrapper.simps
    by (subst retryable_generator_loop.simps)
      (simp add: try_body_def call_func_def call_next_def call_callback_def logger_def
        mocks_at_def fresh_def generator_function_def generator_next_def flaky_scripts_def
        raising_callback_def isinstance_def bases_def class_of_def)
  then show ?thesis
    using leave_generator_not_stop by (rule consume_fails)
qed

text \<open>
  C10 as stated fails for the wrapped sequence. With a callback that raises
  \<open>StopIteration\<close>, the consumer does not get that exception: the generator fails with the
  \<open>RuntimeError\<close> that replaces a \<open>StopIteration\<close> leaving the body of a generator.
\<close>

theorem callback_error_unchanged_counterexample:
  "consume (retryable_generator_wrapper generator_function (generator_next flaky_scripts)
      (isinstance [''ValueError'']) 5 (Some (raising_callback ''StopIteration'')) (202, ''03''))
      (Suc 2) Created (fresh, []) =
   (([], Failed GeneratorRaisedStopIteration),
    (mocks_at 1 1 [1],
     [FuncCall (202, ''03'') None, LogInfo (Error (''ValueError'', 0)) 5,
      CallbackCall (202, ''03'') (Some StopIteration)]))
   \<and> (GeneratorRaisedStopIteration :: exception) \<noteq> StopIteration"
  using raising_callback_generator_run [of "''StopIteration''"]
  by (simp add: raise_new_def)

text \<open>
  C10, amended. In every run of a wrapped call, and in every consumption of a wrapped
  sequence, for every operation, every set of expected errors, every retry budget and every
  callback: if the journal holds an invocation of the callback that raised \<open>ce\<close>, then that
  entry is the last of the journal, so neither \<open>func\<close> nor the callback is invoked after it,
  and it was made with the original arguments. The plain wrapped call raises \<open>ce\<close> itself.
  The wrapped sequence yields no element and fails with \<open>leave_generator ce\<close>: with \<open>ce\<close>
  itself, unless \<open>ce\<close> is \<open>StopIteration\<close>, in whose place the consumer gets the
  \<open>RuntimeError\<close> of a generator that raised \<open>StopIteration\<close>. Whether
  \<open>expected_exception\<close> matches \<open>ce\<close> and how much of the budget is left play no part.
\<close>

theorem callback_error_aborts_retrying:
  "(retryable_wrapper func expected_exception retry_count callback args (s, []) = (r, (s', tr))
      \<and> tr = pre @ CallbackCall a (Some ce) # post
    \<longrightarrow> post = [] \<and> a = args \<and> r = Inl ce)
   \<and> (consume (retryable_generator_wrapper gfunc nxt gexpected_exception retry_count gcallback args)
        n Created (gs, []) = ((vs, ending), (gs', gtr))
      \<and> gtr = gpre @ CallbackCall ga (Some gce) # gpost
    \<longrightarrow> gpost = [] \<and> ga = args \<and> vs = [] \<and> ending = Failed (leave_generator gce))"
  using retryable_wrapper_callback_error [of func expected_exception retry_count callback args s r s' tr pre a ce post]
    retryable_generator_callback_error [of gfunc nxt gexpected_exception retry_count gcallback args n gs vs ending gs' gtr gpre ga gce gpost]
  by blast

theorem callback_error_aborts_retrying_witness:
  "isinstance [''ValueError''] (Error (''ValueError'', 100))
   \<and> retryable_wrapper (raising_method ''ValueError'') (isinstance [''ValueError'']) 5
       (Some (raising_callback ''ValueError'')) (202, ''03'') (fresh, []) =
     (Inl (Error (''ValueError'', 100)),
      (mocks_at 1 1 [],
       [FuncCall (202, ''03'') (Some (Error (''ValueError'', 0))), LogInfo (Error (''ValueError'', 0)) 5]
         @ CallbackCall (202, ''03'') (Some (Error (''ValueError'', 100))) # []))
   \<and> consume (retryable_generator_wrapper generator_function (generator_next flaky_scripts)
        (isinstance [''ValueError'']) 5 (Some (raising_callback ''StopIteration'')) (202, ''03''))
        (Suc 2) Created (fresh, []) =
     (([], Failed GeneratorRaisedStopIteration),
      (mocks_at 1 1 [1],
       [FuncCall (202, ''03'') None, LogInfo (Error (''ValueError'', 0)) 5]
         @ CallbackCall (202, ''03'') (Some StopIteration) # []))
   \<and> ([] :: (call_args, exception) event list) = [] \<and> (202 :: int, ''03'') = (202, ''03'')
   \<and> (Inl (Error (''ValueError'', 100)) :: exception + int) = Inl (Error (''ValueError'', 100))
   \<and> ([] :: string list) = []
   \<and> (Failed GeneratorRaisedStopIteration :: exception ending) =
       Failed (leave_generator StopIteration)"
proof -
  have h0: "isinstance [''ValueError''] (Error (''ValueError'', 100))"
    by (simp add: fixture_defs)
  have h1: "retryable_wrapper (raising_method ''ValueError'') (isinstance [''ValueError'']) 5
       (Some (raising_callback ''ValueError'')) (202, ''03'') (fresh, []) =
     (Inl (Error (''ValueError'', 100)),
      (mocks_at 1 1 [],
       [FuncCall (202, ''03'') (Some (Error (''ValueError'', 0))), LogInfo (Error (''ValueError'', 0)) 5]
         @ CallbackCall (202, ''03'') (Some (Error (''ValueError'', 100))) # []))"
    using raising_callback_run [of "''ValueError''"] by (simp add: raise_new_def)
  have h2: "consume (retryable_generator_wrapper generator_function (generator_next flaky_scripts)
        (isinstance [''ValueError'']) 5 (Some (raising_callback ''StopIteration'')) (202, ''03''))
        (Suc 2) Created (fresh, []) =
     (([], Failed GeneratorRaisedStopIteration),
      (mocks_at 1 1 [1],
       [FuncCall (202, ''03'') None, LogInfo (Error (''ValueError'', 0)) 5]
         @ CallbackCall (202, ''03'') (Some StopIteration) # []))"
    using raising_callback_generator_run [of "''StopIteration''"] by (simp add: raise_new_def)
  note inst = callback_error_aborts_retrying [where func = "raising_method ''ValueError''"
      and expected_exception = "isinstance [''ValueError'']" and retry_count = 5
      and callback = "Some (raising_callback ''ValueError'')" and args = "(202, ''03'')"
      and s = fresh and r = "Inl (Error (''ValueError'', 100))" and s' = "mocks_at 1 1 []"
      and tr = "[FuncCall (202, ''03'') (Some (Error (''ValueError'', 0))), LogInfo (Error (''ValueError'', 0)) 5]
         @ CallbackCall (202, ''03'') (Some (Error (''ValueError'', 100))) # []"
      and pre = "[FuncCall (202, ''03'') (Some (Error (''ValueError'', 0))), LogInfo (Error (''ValueError'', 0)) 5]"
      and a = "(202, ''03'')" and ce = "Error (''ValueError'', 100)" and post = "[]"
      and gfunc = generator_function and nxt = "generator_next flaky_scripts" and n = "Suc 2"
      and gexpected_exception = "isinstance [''ValueError'']"
      and gcallback = "Some (raising_callback ''StopIteration'')" and gs = fresh
      and vs = "[]" and ending = "Failed GeneratorRaisedStopIteration" and gs' = "mocks_at 1 1 [1]"
      and gtr = "[FuncCall (202, ''03'') None, LogInfo (Error (''ValueError'', 0)) 5]
         @ CallbackCall (202, ''03'') (Some StopIteration) # []"
      and gpre = "[FuncCall (202, ''03'') None, LogInfo (Error (''ValueError'', 0)) 5]"
      and ga = "(202, ''03'')" and gce = StopIteration and gpost = "[]"]
  show ?thesis
    using h0 h1 h2 inst by blast
qed

end
